theory Spec2Isabelle
  imports Complex_Main "HOL-Library.Word"
begin

section \<open>Python strings\<close>

text \<open>
  A Python \<open>str\<close> is modelled by the bytes of its UTF-8 encoding, a \<open>string\<close>.
  Two texts are equal, one is empty, one is the concatenation of two others, or one
  occurs inside the other exactly when this holds of their encodings, so these
  operations are the ones of lists.

  The methods \<open>lower\<close> and \<open>strip\<close> follow the Unicode tables of the Python
  runtime, which are not part of the program. They are arguments of the model: the
  definitions below receive them as the two fields of \<open>py\<close>, and nothing is assumed
  of them.
\<close>

record str_methods =
  lower :: "string \<Rightarrow> string"
  strip :: "string \<Rightarrow> string"

text \<open>\<open>startswith p s\<close> is Python's \<open>s.startswith(p)\<close>.\<close>

fun startswith :: "string \<Rightarrow> string \<Rightarrow> bool" where
  "startswith [] s = True"
| "startswith (p # ps) [] = False"
| "startswith (p # ps) (c # cs) = (p = c \<and> startswith ps cs)"

text \<open>\<open>contains p s\<close> is Python's \<open>p in s\<close> on strings: \<open>p\<close> occurs in \<open>s\<close> as a
  contiguous block.\<close>

fun contains :: "string \<Rightarrow> string \<Rightarrow> bool" where
  "contains p [] = (p = [])"
| "contains p (c # cs) = (startswith p (c # cs) \<or> contains p cs)"

text \<open>Python's \<open>any(f(x) for x in xs)\<close>.\<close>

definition any :: "('a \<Rightarrow> bool) \<Rightarrow> 'a list \<Rightarrow> bool" where
  "any f xs = list_ex f xs"

section \<open>Failures of the program\<close>

text \<open>
  Every \<open>raise\<close> of the source and every failure of an external service is a value:
  \<open>HTTPException\<close> carries the status code the server handlers raise, \<open>ValueError\<close> is
  what \<open>set_voice\<close> raises, \<open>OverflowError\<close> is what a conversion of a float that is
  out of range raises, and the three \<open>Unavailable\<close> errors stand for an exception
  coming out of the transcription, generation and synthesis clients.
\<close>

datatype error =
    HTTPException nat
  | ValueError
  | TranscriptionUnavailable
  | GenerationUnavailable
  | SynthesisUnavailable
  | PlaybackError
  | OverflowError

section \<open>The interview state machine (llm\_groq.py)\<close>

text \<open>A chat message \<open>{"role": r, "content": c}\<close> is the pair \<open>(r, c)\<close>.\<close>

type_synonym message = "string \<times> string"

text \<open>
  The generation client \<open>client.chat.completions.create\<close>: it receives the message
  list and either raises or returns the content of the first choice.
\<close>

type_synonym chat_client = "message list \<Rightarrow> error + string"

datatype satisfaction = gathering_info | almost_satisfied | satisfied

record GroqLLM =
  system_prompt :: string
  conversation_history :: "message list"
  question_count :: int
  main_questions_asked :: int
  interview_satisfied :: bool
  satisfaction_level :: satisfaction

definition reset :: "GroqLLM \<Rightarrow> GroqLLM" where
  "reset s = s\<lparr>conversation_history := [], question_count := 0,
               main_questions_asked := 0, interview_satisfied := False,
               satisfaction_level := gathering_info\<rparr>"

text \<open>
  \<open>_generate_response\<close>: the system prompt, the history and the optional instruction
  are sent; only the answer is appended to the history. When the client raises, the
  state is as it was at the call.
\<close>

definition generate_response ::
  "chat_client \<Rightarrow> string option \<Rightarrow> GroqLLM \<Rightarrow> GroqLLM \<times> (error + string)" where
  "generate_response client additional_instruction s =
     (let messages = [(''system'', system_prompt s)] @ conversation_history s @
            (case additional_instruction of
               None \<Rightarrow> []
             | Some i \<Rightarrow> if i \<noteq> [] then [(''user'', i)] else [])
      in case client messages of
           Inl e \<Rightarrow> (s, Inl e)
         | Inr assistant_message \<Rightarrow>
             (s\<lparr>conversation_history :=
                  conversation_history s @ [(''assistant'', assistant_message)]\<rparr>,
              Inr assistant_message))"

definition opening_prompt :: "string \<Rightarrow> string \<Rightarrow> string" where
  "opening_prompt candidate_name role =
     ''Start the interview. The candidate's name is '' @ candidate_name @
     '' and they're interviewing for '' @ role @ ''. \<newline>'' @
     ''Give a warm, brief greeting and ask your first question about their background.''"

definition start_interview ::
  "str_methods \<Rightarrow> chat_client \<Rightarrow> string \<Rightarrow> string \<Rightarrow> GroqLLM \<Rightarrow> GroqLLM \<times> (error + string)" where
  "start_interview py client candidate_name role s =
     (case generate_response client (Some (opening_prompt candidate_name role)) (reset s) of
        (s', Inl e) \<Rightarrow> (s', Inl e)
      | (s', Inr response) \<Rightarrow> (s'\<lparr>main_questions_asked := 1\<rparr>, Inr (strip py response)))"

definition wrap_up_context :: string where
  "wrap_up_context =
     ''The conversation is going well. You can start wrapping up soon.\<newline>'' @
     ''If you feel you've learned enough about the candidate, thank them and conclude naturally.\<newline>'' @
     ''Otherwise, ask one more question if needed.''"

definition continue_context :: string where
  "continue_context =
     ''Continue the interview naturally. Acknowledge their answer briefly and either:\<newline>'' @
     ''- Ask a follow-up if their answer needs clarification\<newline>'' @
     ''- Move to a new main topic/question\<newline>'' @
     ''Keep it conversational.''"

definition rapport_context :: string where
  "rapport_context =
     ''Continue the interview. Acknowledge their response and ask your next question.\<newline>'' @
     ''Build rapport and explore their experience.''"

definition state_context :: "GroqLLM \<Rightarrow> string" where
  "state_context s =
     (if main_questions_asked s \<ge> 4 then wrap_up_context
      else if main_questions_asked s \<ge> 2 then continue_context
      else rapport_context)"

definition new_topic_indicators :: "string list" where
  "new_topic_indicators =
     [''tell me about'', ''can you describe'', ''what experience'', ''how would you'',
      ''walk me through'', ''what's your approach'', ''have you ever'',
      ''what do you think'']"

definition ending_phrases :: "string list" where
  "ending_phrases =
     [''thank you for your time'', ''thank you for speaking'', ''best of luck'',
      ''pleasure speaking'', ''great talking'', ''enjoyed our conversation'',
      ''we'll be in touch'']"

text \<open>
  The part of \<open>respond\<close> after the generation call: the two classifications of the
  generated text and the update of the counters.
\<close>

definition classify :: "str_methods \<Rightarrow> string \<Rightarrow> GroqLLM \<Rightarrow> GroqLLM" where
  "classify py response s =
     (let response_lower = lower py response;
          is_new_main_question = any (\<lambda>ind. contains ind response_lower) new_topic_indicators;
          s1 = (if is_new_main_question \<and> contains ''?'' response
                then s\<lparr>main_questions_asked := main_questions_asked s + 1\<rparr> else s)
      in if any (\<lambda>phrase. contains phrase response_lower) ending_phrases
         then s1\<lparr>interview_satisfied := True, satisfaction_level := satisfied\<rparr>
         else if main_questions_asked s1 \<ge> 3
         then s1\<lparr>satisfaction_level := almost_satisfied\<rparr>
         else s1)"

text \<open>
  \<open>respond\<close>: the candidate's text is appended and the turn counted before the
  generation call, so both stay when that call raises.
\<close>

definition respond ::
  "str_methods \<Rightarrow> chat_client \<Rightarrow> string \<Rightarrow> GroqLLM \<Rightarrow> GroqLLM \<times> (error + string)" where
  "respond py client user_input s =
     (let s1 = s\<lparr>conversation_history := conversation_history s @ [(''user'', user_input)],
                 question_count := question_count s + 1\<rparr>
      in case generate_response client (Some (state_context s1)) s1 of
           (s2, Inl e) \<Rightarrow> (s2, Inl e)
         | (s2, Inr response) \<Rightarrow> (classify py response s2, Inr (strip py response)))"

definition is_interview_complete :: "GroqLLM \<Rightarrow> bool" where
  "is_interview_complete s = interview_satisfied s"

definition can_prompt_end :: "GroqLLM \<Rightarrow> bool" where
  "can_prompt_end s = (main_questions_asked s \<ge> 3)"

record state_view =
  view_question_count :: int
  view_main_questions_asked :: int
  view_satisfaction_level :: satisfaction
  view_can_prompt_end :: bool
  view_is_complete :: bool

definition get_state :: "GroqLLM \<Rightarrow> state_view" where
  "get_state s =
     \<lparr>view_question_count = question_count s,
      view_main_questions_asked = main_questions_asked s,
      view_satisfaction_level = satisfaction_level s,
      view_can_prompt_end = can_prompt_end s,
      view_is_complete = is_interview_complete s\<rparr>"

definition INTERVIEW_SYSTEM_PROMPT :: string where
  "INTERVIEW_SYSTEM_PROMPT =
     ''You are an expert technical interviewer conducting a professional job interview via voice.\<newline>'' @
     ''\<newline>'' @
     ''Your role:\<newline>'' @
     ''- Conduct a natural, flowing conversation\<newline>'' @
     ''- Ask clear questions and engage with their answers\<newline>'' @
     ''- Ask follow-up questions when answers are interesting or need clarification\<newline>'' @
     ''- Be professional but personable\<newline>'' @
     ''\<newline>'' @
     ''Interview structure:\<newline>'' @
     ''- Start with a warm greeting and introduce yourself briefly\<newline>'' @
     ''- Ask about their background and experience (1 main question area)\<newline>'' @
     ''- Ask 2-3 technical/behavioral questions based on the role\<newline>'' @
     ''- Dig deeper with follow-ups when appropriate\<newline>'' @
     ''- After covering 3-5 main topic areas with good discussion, naturally wrap up\<newline>'' @
     ''\<newline>'' @
     ''Speaking style:\<newline>'' @
     ''- Keep responses SHORT and conversational (2-3 sentences max)\<newline>'' @
     ''- This is SPOKEN conversation, not written\<newline>'' @
     ''- Respond with ONLY what you want to say - NO JSON, NO formatting\<newline>'' @
     ''- Sound natural, like a real person talking''"

text \<open>The state of a freshly constructed \<open>GroqLLM()\<close>.\<close>

definition new_GroqLLM :: GroqLLM where
  "new_GroqLLM =
     \<lparr>system_prompt = INTERVIEW_SYSTEM_PROMPT, conversation_history = [], question_count = 0,
      main_questions_asked = 0, interview_satisfied = False,
      satisfaction_level = gathering_info\<rparr>"

text \<open>
  A sequence of \<open>respond\<close> calls on one session, each with the behaviour of the
  generation service at that call; a call that raises leaves the state it reached.
  \<open>all_completed\<close> says that no call of the sequence raised.
\<close>

fun advance_all :: "str_methods \<Rightarrow> (chat_client \<times> string) list \<Rightarrow> GroqLLM \<Rightarrow> GroqLLM" where
  "advance_all py [] s = s"
| "advance_all py ((client, user_input) # rest) s =
     advance_all py rest (fst (respond py client user_input s))"

fun all_completed :: "str_methods \<Rightarrow> (chat_client \<times> string) list \<Rightarrow> GroqLLM \<Rightarrow> bool" where
  "all_completed py [] s = True"
| "all_completed py ((client, user_input) # rest) s =
     (case respond py client user_input s of
        (s', Inl e) \<Rightarrow> False
      | (s', Inr r) \<Rightarrow> all_completed py rest s')"

text \<open>The state \<open>respond\<close> has reached when it calls the generation service.\<close>

definition candidate_recorded :: "string \<Rightarrow> GroqLLM \<Rightarrow> GroqLLM" where
  "candidate_recorded user_input s =
     s\<lparr>conversation_history := conversation_history s @ [(''user'', user_input)],
       question_count := question_count s + 1\<rparr>"

section \<open>The silence-terminated recorder (audio\_utils.py)\<close>

text \<open>
  The input stream delivers blocks of 1024 frames of signed 16-bit samples.

  A Python float is a real number: the arguments of the recorder are finite floats.
  The result of a float operation is the exact result rounded to double precision. The
  rounding belongs to the floating-point unit, not to the program, and is an argument
  of the model: \<open>fl x\<close> is \<open>x\<close> rounded to the nearest double, with the exponent
  unbounded above, so that an operation overflows exactly when the rounded result
  exceeds \<open>float_max\<close>. \<open>double_rounding\<close> states what the proofs use of it:
  rounding is monotone, and it leaves a number \<open>k / 2 ^ j\<close> with \<open>\<bar>k\<bar> \<le> 2 ^ 53\<close> as
  it is.
\<close>

type_synonym chunk = "16 word list"

type_synonym rounding = "real \<Rightarrow> real"

definition double_rounding :: "rounding \<Rightarrow> bool" where
  "double_rounding fl \<longleftrightarrow>
     (\<forall>x y. x \<le> y \<longrightarrow> fl x \<le> fl y) \<and>
     (\<forall>(k::int) (j::nat). \<bar>k\<bar> \<le> 2 ^ 53 \<and> j \<le> 1000 \<longrightarrow>
        fl (real_of_int k / 2 ^ j) = real_of_int k / 2 ^ j)"

text \<open>The largest finite double.\<close>

definition float_max :: real where
  "float_max = (2 ^ 53 - 1) * 2 ^ 971"

record AudioRecorder =
  sample_rate :: int
  channels :: int

record capture_state =
  audio_chunks :: "chunk list"
  silence_samples :: int

text \<open>Python's \<open>int(x)\<close> on a finite float truncates towards zero.\<close>

definition py_int :: "real \<Rightarrow> int" where
  "py_int x = (if 0 \<le> x then \<lfloor>x\<rfloor> else \<lceil>x\<rceil>)"

text \<open>
  \<open>int(d * self.sample_rate / 1024)\<close>: the sample rate is converted to a float, which
  raises when it is out of range; the product and the quotient are rounded; \<open>int\<close> of
  an infinite product raises.
\<close>

definition whole_chunks :: "rounding \<Rightarrow> real \<Rightarrow> int \<Rightarrow> error + int" where
  "whole_chunks fl d rate =
     (let rate_f = fl (real_of_int rate) in
      if float_max < \<bar>rate_f\<bar> then Inl OverflowError
      else
        let product = fl (d * rate_f) in
        if float_max < \<bar>product\<bar> then Inl OverflowError
        else Inr (py_int (fl (product / 1024))))"

definition required_silence_samples :: "rounding \<Rightarrow> AudioRecorder \<Rightarrow> real \<Rightarrow> error + int" where
  "required_silence_samples fl r silence_duration =
     whole_chunks fl silence_duration (sample_rate r)"

definition min_samples :: "rounding \<Rightarrow> AudioRecorder \<Rightarrow> real \<Rightarrow> error + int" where
  "min_samples fl r min_duration = whole_chunks fl min_duration (sample_rate r)"

text \<open>
  \<open>np.sqrt(np.mean(indata**2))\<close>, where \<open>None\<close> stands for \<open>nan\<close>. The squares
  are taken in 16-bit arithmetic and wrap around. Their sum is exact; the mean is the
  sum over the number of samples, rounded; the root is rounded. The mean of no sample
  and the root of a negative mean are \<open>nan\<close>.
\<close>

definition np_rms :: "rounding \<Rightarrow> chunk \<Rightarrow> real option" where
  "np_rms fl indata =
     (if indata = [] then None
      else
        let mean = fl (real_of_int (sum_list (map (\<lambda>x. sint (x * x)) indata))
                         / real (length indata))
        in if mean < 0 then None else Some (fl (sqrt mean)))"

text \<open>\<open>rms < silence_threshold\<close>; \<open>nan\<close> is below nothing.\<close>

definition rms_below :: "rounding \<Rightarrow> real \<Rightarrow> chunk \<Rightarrow> bool" where
  "rms_below fl silence_threshold indata =
     (case np_rms fl indata of
        None \<Rightarrow> False
      | Some rms \<Rightarrow> rms < silence_threshold)"

text \<open>
  The stream callback: the new state and whether \<open>CallbackStop\<close> is raised.
\<close>

definition callback ::
  "rounding \<Rightarrow> real \<Rightarrow> int \<Rightarrow> int \<Rightarrow> chunk \<Rightarrow> capture_state
     \<Rightarrow> capture_state \<times> bool" where
  "callback fl silence_threshold min_n required_n indata st =
     (let chunks = audio_chunks st @ [indata];
          n = (if rms_below fl silence_threshold indata \<and> int (length chunks) > min_n
               then silence_samples st + 1 else 0)
      in (\<lparr>audio_chunks = chunks, silence_samples = n\<rparr>, n \<ge> required_n))"

text \<open>
  The stream runs the callback on each block until the callback stops it or the
  blocks delivered before \<open>max_duration\<close> has elapsed are used up.
\<close>

fun run_stream ::
  "rounding \<Rightarrow> real \<Rightarrow> int \<Rightarrow> int \<Rightarrow> chunk list \<Rightarrow> capture_state
     \<Rightarrow> capture_state \<times> bool" where
  "run_stream fl silence_threshold min_n required_n [] st = (st, False)"
| "run_stream fl silence_threshold min_n required_n (indata # rest) st =
     (case callback fl silence_threshold min_n required_n indata st of
        (st', stop) \<Rightarrow>
          if stop then (st', True)
          else run_stream fl silence_threshold min_n required_n rest st')"

text \<open>
  \<open>record_with_silence_detection\<close> up to the packaging of the audio: the blocks
  buffered when the stream ended, and whether the silence rule ended it. The two
  block counts are computed before the stream is opened, the required one first. The
  argument \<open>stream\<close> is the list of blocks the device delivers within
  \<open>max_duration\<close>.
\<close>

definition record_with_silence_detection ::
  "rounding \<Rightarrow> AudioRecorder \<Rightarrow> real \<Rightarrow> real \<Rightarrow> real \<Rightarrow> chunk list
     \<Rightarrow> error + (chunk list \<times> bool)" where
  "record_with_silence_detection fl r silence_threshold silence_duration min_duration stream =
     (case required_silence_samples fl r silence_duration of
        Inl e \<Rightarrow> Inl e
      | Inr required_n \<Rightarrow>
          (case min_samples fl r min_duration of
             Inl e \<Rightarrow> Inl e
           | Inr min_n \<Rightarrow>
               (case run_stream fl silence_threshold min_n required_n stream
                       \<lparr>audio_chunks = [], silence_samples = 0\<rparr> of
                  (st, stopped) \<Rightarrow> Inr (audio_chunks st, stopped))))"

text \<open>Seconds of audio in one block and in \<open>n\<close> blocks.\<close>

definition chunk_duration :: "AudioRecorder \<Rightarrow> real" where
  "chunk_duration r = 1024 / real_of_int (sample_rate r)"

definition duration_of :: "AudioRecorder \<Rightarrow> nat \<Rightarrow> real" where
  "duration_of r n = real n * chunk_duration r"

text \<open>
  The RMS energy of a block: the root of the mean of the squares of its samples, in
  double precision. \<open>fits_int16\<close> holds of a block in
  which the square of every sample fits 16 bits; on such a block the 16-bit squares of
  the program are the squares.
\<close>

definition rms_energy :: "rounding \<Rightarrow> chunk \<Rightarrow> real" where
  "rms_energy fl indata =
     fl (sqrt (fl (real_of_int (sum_list (map (\<lambda>x. sint x * sint x) indata))
                     / real (length indata))))"

definition fits_int16 :: "chunk \<Rightarrow> bool" where
  "fits_int16 indata \<longleftrightarrow> (\<forall>x\<in>set indata. \<bar>sint x\<bar> \<le> 181)"

section \<open>Speech synthesis (tts\_deepgram.py)\<close>

type_synonym bytes = "8 word list"

definition AURA_VOICES :: "(string \<times> string) list" where
  "AURA_VOICES =
     [(''asteria'', ''aura-asteria-en''), (''luna'', ''aura-luna-en''),
      (''stella'', ''aura-stella-en''), (''athena'', ''aura-athena-en''),
      (''hera'', ''aura-hera-en''), (''orion'', ''aura-orion-en''),
      (''arcas'', ''aura-arcas-en''), (''perseus'', ''aura-perseus-en''),
      (''angus'', ''aura-angus-en''), (''orpheus'', ''aura-orpheus-en''),
      (''helios'', ''aura-helios-en''), (''zeus'', ''aura-zeus-en'')]"

text \<open>\<open>config.DEEPGRAM_TTS_MODEL\<close>.\<close>

definition DEEPGRAM_TTS_MODEL :: string where
  "DEEPGRAM_TTS_MODEL = ''aura-asteria-en''"

record DeepgramTTS =
  model :: string

text \<open>\<open>DeepgramTTS.__init__\<close>: \<open>AURA_VOICES.get(voice, config.DEEPGRAM_TTS_MODEL)\<close>.\<close>

definition new_DeepgramTTS :: "string \<Rightarrow> DeepgramTTS" where
  "new_DeepgramTTS voice =
     \<lparr>model = (case map_of AURA_VOICES voice of
                  Some m \<Rightarrow> m
                | None \<Rightarrow> DEEPGRAM_TTS_MODEL)\<rparr>"

definition set_voice :: "string \<Rightarrow> DeepgramTTS \<Rightarrow> error + DeepgramTTS" where
  "set_voice voice t =
     (case map_of AURA_VOICES voice of
        Some m \<Rightarrow> Inr (t\<lparr>model := m\<rparr>)
      | None \<Rightarrow> Inl ValueError)"

text \<open>
  The request \<open>synthesize\<close> posts: the query parameters of the URL and the text of
  the body. The speech service either raises or returns the audio.
\<close>

record speak_request =
  request_model :: string
  request_encoding :: string
  request_sample_rate :: int
  request_text :: string

type_synonym speak_service = "speak_request \<Rightarrow> error + bytes"

definition synthesize :: "speak_service \<Rightarrow> DeepgramTTS \<Rightarrow> string \<Rightarrow> error + bytes" where
  "synthesize service t text =
     service \<lparr>request_model = model t, request_encoding = ''linear16'',
              request_sample_rate = 24000, request_text = text\<rparr>"

section \<open>Transcription (stt\_groq.py)\<close>

text \<open>
  The transcription service receives the audio and the file suffix and either raises
  or returns the text, which \<open>transcribe_bytes\<close> strips.
\<close>

type_synonym stt_service = "bytes \<Rightarrow> string \<Rightarrow> error + string"

definition transcribe_bytes :: "str_methods \<Rightarrow> stt_service \<Rightarrow> bytes \<Rightarrow> string \<Rightarrow> error + string" where
  "transcribe_bytes py service audio_bytes format =
     (case service audio_bytes format of
        Inl e \<Rightarrow> Inl e
      | Inr transcription \<Rightarrow> Inr (strip py transcription))"

section \<open>The session registry (main.py)\<close>

text \<open>A transcript entry \<open>{"role": r, "content": c}\<close> is the pair \<open>(r, c)\<close>.\<close>

type_synonym entry = "string \<times> string"

record session =
  session_llm :: GroqLLM
  session_tts :: DeepgramTTS
  session_candidate_name :: string
  session_role :: string
  session_transcript :: "entry list"

type_synonym registry = "string \<rightharpoonup> session"

record InterviewStartRequest =
  request_candidate_name :: string
  request_role :: string
  request_voice :: string

text \<open>The audio is kept as bytes; its base64 text form is not modelled.\<close>

record InterviewStartResponse =
  response_session_id :: string
  response_opening_message :: string
  response_opening_audio :: bytes
  response_state :: state_view

text \<open>
  \<open>start_interview\<close> of the server. The argument \<open>session_id\<close> is the fresh
  \<open>uuid4\<close> token. An exception from the generation or the speech service leaves the
  registry as it was.
\<close>

definition api_start_interview ::
  "str_methods \<Rightarrow> chat_client \<Rightarrow> speak_service \<Rightarrow> string \<Rightarrow> InterviewStartRequest \<Rightarrow> registry
     \<Rightarrow> registry \<times> (error + InterviewStartResponse)" where
  "api_start_interview py client service session_id request sessions =
     (let tts = new_DeepgramTTS (request_voice request) in
      case start_interview py client (request_candidate_name request) (request_role request)
             new_GroqLLM of
        (llm, Inl e) \<Rightarrow> (sessions, Inl e)
      | (llm, Inr opening_message) \<Rightarrow>
          (case synthesize service tts opening_message of
             Inl e \<Rightarrow> (sessions, Inl e)
           | Inr audio_bytes \<Rightarrow>
               (sessions(session_id \<mapsto>
                  \<lparr>session_llm = llm, session_tts = tts,
                   session_candidate_name = request_candidate_name request,
                   session_role = request_role request,
                   session_transcript = [(''interviewer'', opening_message)]\<rparr>),
                Inr \<lparr>response_session_id = session_id,
                     response_opening_message = opening_message,
                     response_opening_audio = audio_bytes,
                     response_state = get_state llm\<rparr>)))"

definition get_interview_state ::
  "registry \<Rightarrow> string \<Rightarrow> error + (state_view \<times> entry list)" where
  "get_interview_state sessions session_id =
     (case sessions session_id of
        None \<Rightarrow> Inl (HTTPException 404)
      | Some s \<Rightarrow> Inr (get_state (session_llm s), session_transcript s))"

text \<open>
  \<open>end_interview\<close> of the server: the registry after the call and the answer
  (message, transcript, state).
\<close>

definition end_interview ::
  "registry \<Rightarrow> string \<Rightarrow> registry \<times> (error + (string \<times> entry list \<times> state_view))" where
  "end_interview sessions session_id =
     (case sessions session_id of
        None \<Rightarrow> (sessions, Inl (HTTPException 404))
      | Some s \<Rightarrow>
          (sessions,
           Inr (''Interview ended'', session_transcript s, get_state (session_llm s))))"

section \<open>The interactive agent (interview\_agent.py)\<close>

text \<open>
  What one step of the agent meets outside the program: the three services and the
  audio player, which may raise.
\<close>

record services =
  stt_service_of :: stt_service
  chat_client_of :: chat_client
  speak_service_of :: speak_service
  play_bytes :: "bytes \<Rightarrow> error option"

record InterviewAgent =
  llm :: GroqLLM
  tts :: DeepgramTTS
  running :: bool
  transcript :: "entry list"

text \<open>\<open>InterviewAgent.__init__\<close> on the module's shared \<open>llm\<close> and \<open>tts\<close>.\<close>

definition new_InterviewAgent :: "string \<Rightarrow> error + InterviewAgent" where
  "new_InterviewAgent voice =
     (case set_voice voice (new_DeepgramTTS ''asteria'') of
        Inl e \<Rightarrow> Inl e
      | Inr t \<Rightarrow> Inr \<lparr>llm = new_GroqLLM, tts = t, running = False, transcript = []\<rparr>)"

text \<open>
  \<open>speak\<close>: the entry is appended before the synthesis, so it stays when the
  synthesis or the playback raises.
\<close>

definition speak :: "services \<Rightarrow> string \<Rightarrow> InterviewAgent \<Rightarrow> InterviewAgent \<times> error option" where
  "speak sv text a =
     (let a' = a\<lparr>transcript := transcript a @ [(''interviewer'', text)]\<rparr>
      in case synthesize (speak_service_of sv) (tts a') text of
           Inl e \<Rightarrow> (a', Some e)
         | Inr audio \<Rightarrow> (a', play_bytes sv audio))"

text \<open>\<open>listen\<close>, given the bytes the recorder returned.\<close>

definition listen :: "str_methods \<Rightarrow> services \<Rightarrow> bytes \<Rightarrow> InterviewAgent \<Rightarrow> InterviewAgent \<times> (error + string)" where
  "listen py sv audio_bytes a =
     (if audio_bytes = [] then (a, Inr [])
      else case transcribe_bytes py (stt_service_of sv) audio_bytes ''wav'' of
             Inl e \<Rightarrow> (a, Inl e)
           | Inr text \<Rightarrow> (a\<lparr>transcript := transcript a @ [(''candidate'', text)]\<rparr>, Inr text))"

definition exit_words :: "string list" where
  "exit_words = [''exit'', ''quit'', ''stop interview'', ''end interview'']"

definition repeat_line :: string where
  "repeat_line = ''I didn't catch that. Could you please repeat?''"

definition concluding_line :: string where
  "concluding_line = ''Thank you for your time. The interview is now concluded.''"

text \<open>How one pass through the body of the interview loop ends.\<close>

datatype flow = Continue | Break | Raise error

definition turn :: "str_methods \<Rightarrow> services \<Rightarrow> bytes \<Rightarrow> InterviewAgent \<Rightarrow> InterviewAgent \<times> flow" where
  "turn py sv audio_bytes a =
     (case listen py sv audio_bytes a of
        (a1, Inl e) \<Rightarrow> (a1, Raise e)
      | (a1, Inr response) \<Rightarrow>
          if response = [] then
            (case speak sv repeat_line a1 of
               (a2, Some e) \<Rightarrow> (a2, Raise e)
             | (a2, None) \<Rightarrow> (a2, Continue))
          else if any (\<lambda>word. contains word (lower py response)) exit_words then
            (case speak sv concluding_line a1 of
               (a2, Some e) \<Rightarrow> (a2, Raise e)
             | (a2, None) \<Rightarrow> (a2, Break))
          else
            (case respond py (chat_client_of sv) response (llm a1) of
               (l, Inl e) \<Rightarrow> (a1\<lparr>llm := l\<rparr>, Raise e)
             | (l, Inr interviewer_response) \<Rightarrow>
                 (case speak sv interviewer_response (a1\<lparr>llm := l\<rparr>) of
                    (a2, Some e) \<Rightarrow> (a2, Raise e)
                  | (a2, None) \<Rightarrow> (a2, Continue))))"

text \<open>
  The interview loop over the captures of the session, each with the services as they
  behave at that pass. The list ends where the operator interrupts.
\<close>

fun interview_loop ::
  "str_methods \<Rightarrow> (services \<times> bytes) list \<Rightarrow> InterviewAgent \<Rightarrow> InterviewAgent \<times> error option" where
  "interview_loop py [] a = (a, None)"
| "interview_loop py ((sv, audio_bytes) # rest) a =
     (if running a \<and> \<not> is_interview_complete (llm a) then
        (case turn py sv audio_bytes a of
           (a', Continue) \<Rightarrow> interview_loop py rest a'
         | (a', Break) \<Rightarrow> (a', None)
         | (a', Raise e) \<Rightarrow> (a', Some e))
      else (a, None))"

text \<open>The opening of \<open>run_interview\<close>, up to the loop.\<close>

definition open_interview ::
  "str_methods \<Rightarrow> services \<Rightarrow> string \<Rightarrow> string \<Rightarrow> InterviewAgent \<Rightarrow> InterviewAgent \<times> error option" where
  "open_interview py sv candidate_name role a =
     (let a0 = a\<lparr>running := True, transcript := []\<rparr>
      in case start_interview py (chat_client_of sv) candidate_name role (llm a0) of
           (l, Inl e) \<Rightarrow> (a0\<lparr>llm := l\<rparr>, Some e)
         | (l, Inr opening) \<Rightarrow> speak sv opening (a0\<lparr>llm := l\<rparr>))"

definition run_interview ::
  "str_methods \<Rightarrow> services \<Rightarrow> string \<Rightarrow> string \<Rightarrow> (services \<times> bytes) list \<Rightarrow> InterviewAgent
     \<Rightarrow> InterviewAgent \<times> (error + entry list)" where
  "run_interview py sv candidate_name role captures a =
     (case open_interview py sv candidate_name role a of
        (a1, Some e) \<Rightarrow> (a1\<lparr>running := False\<rparr>, Inl e)
      | (a1, None) \<Rightarrow>
          (case interview_loop py captures a1 of
             (a2, Some e) \<Rightarrow> (a2\<lparr>running := False\<rparr>, Inl e)
           | (a2, None) \<Rightarrow> (a2\<lparr>running := False\<rparr>, Inr (transcript a2))))"

section \<open>Concrete services, sessions and streams\<close>

text \<open>
  The two string methods on ASCII text. On a text whose characters are all ASCII,
  \<open>str.lower\<close> maps the letters A to Z to a to z and keeps every other character,
  and \<open>str.strip\<close> removes from both ends the characters 9 to 13, 28 to 31 and the
  space. \<open>ascii_text\<close> serves to run the program on the texts of the concrete
  sessions below, every one of them ASCII.
\<close>

definition ascii_lower_char :: "char \<Rightarrow> char" where
  "ascii_lower_char c =
     (if 65 \<le> (of_char c :: nat) \<and> (of_char c :: nat) \<le> 90
      then char_of ((of_char c :: nat) + 32) else c)"

definition ascii_isspace :: "char \<Rightarrow> bool" where
  "ascii_isspace c =
     (let n = (of_char c :: nat) in (9 \<le> n \<and> n \<le> 13) \<or> (28 \<le> n \<and> n \<le> 32))"

definition ascii_text :: str_methods where
  "ascii_text =
     \<lparr>lower = map ascii_lower_char,
      strip = (\<lambda>s. rev (dropWhile ascii_isspace (rev (dropWhile ascii_isspace s))))\<rparr>"

text \<open>A generation service that answers with a fixed text, and one that is down.\<close>

definition replies :: "string \<Rightarrow> chat_client" where
  "replies text messages = Inr text"

definition unavailable :: chat_client where
  "unavailable messages = Inl GenerationUnavailable"

text \<open>A speech service that returns four bytes of audio, and a player that plays.\<close>

definition speaker :: speak_service where
  "speaker request = Inr [0, 0, 0, 0]"

definition player :: "bytes \<Rightarrow> error option" where
  "player audio = None"

text \<open>The services of a pass in which the candidate is heard to say \<open>text\<close>.\<close>

definition heard :: "string \<Rightarrow> services" where
  "heard text =
     \<lparr>stt_service_of = (\<lambda>audio_bytes format. Inr text),
      chat_client_of = replies ''Thanks. Can you describe a hard bug you fixed?'',
      speak_service_of = speaker, play_bytes = player\<rparr>"

text \<open>A session of the state machine after \<open>start_interview\<close>.\<close>

definition opened_session :: GroqLLM where
  "opened_session =
     fst (start_interview ascii_text (replies ''Hello Alex. Tell me about your background?'')
            ''Alex'' ''Backend Engineer'' new_GroqLLM)"

text \<open>Three completed turns, the third answered with a farewell.\<close>

definition closed_session :: GroqLLM where
  "closed_session =
     advance_all ascii_text
       [(replies ''Can you describe a hard bug you fixed?'', ''I built payment services.''),
        (replies ''How would you design a cache?'', ''It was a race condition.''),
        (replies ''Thank you for your time.'', ''I would use an LRU policy.'')]
       opened_session"

text \<open>A turn in which the generation service is down, then the same turn again.\<close>

definition failed_then_completed :: GroqLLM where
  "failed_then_completed =
     advance_all ascii_text
       [(unavailable, ''I built payment services.''),
        (replies ''Can you describe a hard bug you fixed?'', ''I built payment services.'')]
       opened_session"

text \<open>A registry holding one session, created by the server's start operation.\<close>

definition alex_request :: InterviewStartRequest where
  "alex_request =
     \<lparr>request_candidate_name = ''Alex'', request_role = ''Backend Engineer'',
      request_voice = ''asteria''\<rparr>"

definition one_session :: registry where
  "one_session =
     fst (api_start_interview ascii_text (replies ''Hello Alex. Tell me about your background?'')
            speaker ''session-1'' alex_request Map.empty)"

text \<open>The interactive agent after the opening of an interview.\<close>

definition opened_agent :: InterviewAgent where
  "opened_agent =
     fst (open_interview ascii_text
            ((heard [])\<lparr>chat_client_of := replies ''Hello Alex. Tell me about your background?''\<rparr>)
            ''Alex'' ''Backend Engineer''
            \<lparr>llm = new_GroqLLM, tts = new_DeepgramTTS ''asteria'', running = False,
             transcript = []\<rparr>)"

text \<open>
  Exact arithmetic. On a number that is a double, rounding changes nothing; the
  numbers that occur when the program runs on the concrete streams below (24000,
  23.4375, 16000, 15.625, 128000, 125, 10000, 100 and 0) are doubles, so on them
  \<open>exact\<close> is the rounding of the machine.
\<close>

definition exact :: rounding where
  "exact x = x"

text \<open>The module's recorder: \<open>AudioRecorder()\<close> at \<open>config.AUDIO_SAMPLE_RATE\<close>.\<close>

definition recorder :: AudioRecorder where
  "recorder = \<lparr>sample_rate = 16000, channels = 1\<rparr>"

definition loud_chunk :: chunk where
  "loud_chunk = replicate 1024 100"

definition quiet_chunk :: chunk where
  "quiet_chunk = replicate 1024 0"

section \<open>Properties of the string operations\<close>

lemma startswith_iff: "startswith p s \<longleftrightarrow> (\<exists>r. s = p @ r)"
  by (induction p s rule: startswith.induct) auto

lemma contains_iff: "contains p s \<longleftrightarrow> (\<exists>a b. s = a @ p @ b)"
proof (induction s)
  case Nil
  then show ?case by auto
next
  case (Cons c cs)
  show ?case
  proof
    assume "contains p (c # cs)"
    then consider "startswith p (c # cs)" | "contains p cs" by auto
    then show "\<exists>a b. c # cs = a @ p @ b"
    proof cases
      case 1
      then obtain r where "c # cs = p @ r" by (auto simp: startswith_iff)
      then have "c # cs = [] @ p @ r" by simp
      then show ?thesis by blast
    next
      case 2
      then obtain a b where "cs = a @ p @ b" using Cons.IH by auto
      then have "c # cs = (c # a) @ p @ b" by simp
      then show ?thesis by blast
    qed
  next
    assume "\<exists>a b. c # cs = a @ p @ b"
    then obtain a b where ab: "c # cs = a @ p @ b" by blast
    show "contains p (c # cs)"
    proof (cases a)
      case Nil
      with ab have "startswith p (c # cs)" by (simp add: startswith_iff)
      then show ?thesis by simp
    next
      case (Cons x a')
      with ab have "cs = a' @ p @ b" by simp
      then show ?thesis using Cons.IH by auto
    qed
  qed
qed

lemma any_iff: "any f xs \<longleftrightarrow> (\<exists>x\<in>set xs. f x)"
  by (simp add: any_def list_ex_iff)

section \<open>Properties of the interview state machine\<close>

lemma classify_main_questions:
  "main_questions_asked (classify py response s) =
     main_questions_asked s +
       (if CHR ''?'' \<in> set response \<and>
           (\<exists>ind\<in>set new_topic_indicators. \<exists>a b. lower py response = a @ ind @ b)
        then 1 else 0)"
  by (simp add: classify_def Let_def any_iff contains_iff in_set_conv_decomp)

lemma classify_history: "conversation_history (classify py response s) = conversation_history s"
  by (simp add: classify_def Let_def)

lemma classify_question_count: "question_count (classify py response s) = question_count s"
  by (simp add: classify_def Let_def)

lemma state_context_nonempty: "state_context s \<noteq> []"
  by (simp add: state_context_def wrap_up_context_def continue_context_def rapport_context_def)

lemma opening_prompt_nonempty: "opening_prompt candidate_name role \<noteq> []"
  by (simp add: opening_prompt_def)

lemma respond_cases:
  assumes "respond py client user_input s = (s', res)"
  shows "(\<exists>e. res = Inl e \<and> s' = candidate_recorded user_input s) \<or>
         (\<exists>response. res = Inr (strip py response) \<and>
            s' = classify py response
                   ((candidate_recorded user_input s)\<lparr>conversation_history :=
                        conversation_history s @ [(''user'', user_input), (''assistant'', response)]\<rparr>))"
proof (cases "client ([(''system'', system_prompt s)] @ (conversation_history s @ [(''user'', user_input)]) @
                [(''user'', state_context (candidate_recorded user_input s))])")
  case (Inl e)
  then have "respond py client user_input s = (candidate_recorded user_input s, Inl e)"
    by (simp add: respond_def generate_response_def Let_def state_context_nonempty
          candidate_recorded_def)
  with assms show ?thesis by auto
next
  case (Inr response)
  then have "respond py client user_input s =
      (classify py response
         ((candidate_recorded user_input s)\<lparr>conversation_history :=
              conversation_history s @ [(''user'', user_input), (''assistant'', response)]\<rparr>),
       Inr (strip py response))"
    by (simp add: respond_def generate_response_def Let_def state_context_nonempty
          candidate_recorded_def)
  with assms show ?thesis by auto
qed

text \<open>
  C8. An advance call raises the count of opened topics by one exactly when the
  generated text has a question mark and its lower-case form has one of the
  topic-opening phrases; otherwise, and when the generation fails, the count stays. So
  the count never decreases, and the candidate's text plays no part in it.
\<close>

theorem topics_opened_iff:
  assumes "respond py client user_input s = (s', res)"
  shows "(case res of
            Inl e \<Rightarrow> main_questions_asked s' = main_questions_asked s
          | Inr out \<Rightarrow>
              (\<exists>response.
                 conversation_history s' =
                   conversation_history s @ [(''user'', user_input), (''assistant'', response)] \<and>
                 out = strip py response \<and>
                 main_questions_asked s' =
                   main_questions_asked s +
                     (if CHR ''?'' \<in> set response \<and>
                         (\<exists>ind\<in>set new_topic_indicators. \<exists>a b. lower py response = a @ ind @ b)
                      then 1 else 0))) \<and>
         main_questions_asked s \<le> main_questions_asked s'"
proof -
  from respond_cases [OF assms] show ?thesis
  proof (elim disjE exE conjE)
    fix e
    assume "res = Inl e"
      and "s' = candidate_recorded user_input s"
    then show ?thesis by (simp add: candidate_recorded_def)
  next
    fix response
    assume r: "res = Inr (strip py response)"
      and s': "s' = classify py response
                   ((candidate_recorded user_input s)\<lparr>conversation_history :=
                        conversation_history s @ [(''user'', user_input), (''assistant'', response)]\<rparr>)"
    have h: "conversation_history s' =
               conversation_history s @ [(''user'', user_input), (''assistant'', response)]"
      by (simp add: s' classify_history)
    have m: "main_questions_asked s' =
               main_questions_asked s +
                 (if CHR ''?'' \<in> set response \<and>
                     (\<exists>ind\<in>set new_topic_indicators. \<exists>a b. lower py response = a @ ind @ b)
                  then 1 else 0)"
      by (simp add: s' classify_main_questions candidate_recorded_def)
    have le: "main_questions_asked s \<le> main_questions_asked s'"
      by (simp add: m)
    from h m have "\<exists>x. conversation_history s' =
                   conversation_history s @ [(''user'', user_input), (''assistant'', x)] \<and>
                 strip py response = strip py x \<and>
                 main_questions_asked s' =
                   main_questions_asked s +
                     (if CHR ''?'' \<in> set x \<and>
                         (\<exists>ind\<in>set new_topic_indicators. \<exists>a b. lower py x = a @ ind @ b)
                      then 1 else 0)"
      by blast
    with le show ?thesis by (simp add: r)
  qed
qed

theorem topics_opened_iff_witness:
  "respond ascii_text (replies ''Thanks. Can you describe a hard bug you fixed?'')
       ''I built payment services.'' opened_session
     = (fst (respond ascii_text (replies ''Thanks. Can you describe a hard bug you fixed?'')
               ''I built payment services.'' opened_session),
        Inr ''Thanks. Can you describe a hard bug you fixed?'') \<and>
   main_questions_asked opened_session
     \<le> main_questions_asked
         (fst (respond ascii_text (replies ''Thanks. Can you describe a hard bug you fixed?'')
                 ''I built payment services.'' opened_session)) \<and>
   main_questions_asked
     (fst (respond ascii_text (replies ''Thanks. Can you describe a hard bug you fixed?'')
             ''I built payment services.'' opened_session)) = 2"
proof -
  have r: "snd (respond ascii_text (replies ''Thanks. Can you describe a hard bug you fixed?'')
                  ''I built payment services.'' opened_session)
           = Inr ''Thanks. Can you describe a hard bug you fixed?''"
    by code_simp
  have h: "respond ascii_text (replies ''Thanks. Can you describe a hard bug you fixed?'')
               ''I built payment services.'' opened_session
           = (fst (respond ascii_text (replies ''Thanks. Can you describe a hard bug you fixed?'')
                     ''I built payment services.'' opened_session),
              Inr ''Thanks. Can you describe a hard bug you fixed?'')"
    by (rule prod_eqI) (simp_all add: r)
  have m: "main_questions_asked
             (fst (respond ascii_text (replies ''Thanks. Can you describe a hard bug you fixed?'')
                     ''I built payment services.'' opened_session)) = 2"
    by code_simp
  from topics_opened_iff [OF h] h m show ?thesis by simp
qed

lemma classify_interview_satisfied:
  "interview_satisfied s \<Longrightarrow> interview_satisfied (classify py response s)"
  by (simp add: classify_def Let_def)

lemma start_interview_completed:
  assumes "start_interview py client candidate_name role s0 = (s, Inr opening)"
  shows "\<exists>response. opening = strip py response \<and>
           conversation_history s = [(''assistant'', response)] \<and>
           question_count s = 0 \<and> main_questions_asked s = 1 \<and>
           \<not> interview_satisfied s \<and> satisfaction_level s = gathering_info"
  using assms
  by (auto simp: start_interview_def generate_response_def Let_def opening_prompt_nonempty
        reset_def split: sum.splits)

lemma respond_completed:
  assumes "respond py client user_input s = (s', Inr out)"
  shows "\<exists>response. out = strip py response \<and>
           conversation_history s' =
             conversation_history s @ [(''user'', user_input), (''assistant'', response)] \<and>
           question_count s' = question_count s + 1"
  using respond_cases [OF assms]
  by (auto simp: classify_history classify_question_count candidate_recorded_def)

lemma respond_failed:
  assumes "respond py client user_input s = (s', Inl e)"
  shows "conversation_history s' = conversation_history s @ [(''user'', user_input)] \<and>
         question_count s' = question_count s + 1"
  using respond_cases [OF assms]
  by (auto simp: candidate_recorded_def)

lemma respond_keeps_interview_satisfied:
  assumes "interview_satisfied s"
  shows "interview_satisfied (fst (respond py client user_input s))"
proof -
  obtain s' res where r: "respond py client user_input s = (s', res)"
    by (cases "respond py client user_input s")
  from respond_cases [OF r] assms have "interview_satisfied s'"
    by (auto simp: candidate_recorded_def classify_interview_satisfied)
  with r show ?thesis by simp
qed

lemma advance_all_append:
  "advance_all py (xs @ ys) s = advance_all py ys (advance_all py xs s)"
  by (induction py xs s rule: advance_all.induct) auto

lemma all_completed_append:
  "all_completed py (xs @ ys) s \<longleftrightarrow> all_completed py xs s \<and> all_completed py ys (advance_all py xs s)"
  by (induction py xs s rule: all_completed.induct) (auto split: prod.splits sum.splits)

lemma all_completed_take:
  assumes "all_completed py calls s"
  shows "all_completed py (take n calls) s"
proof -
  have "all_completed py (take n calls @ drop n calls) s" using assms by simp
  then show ?thesis by (simp only: all_completed_append)
qed

lemma all_completed_invariant:
  assumes "all_completed py calls s"
  shows "int (length (conversation_history (advance_all py calls s)))
           - 2 * question_count (advance_all py calls s)
           = int (length (conversation_history s)) - 2 * question_count s \<and>
         question_count (advance_all py calls s) = question_count s + int (length calls)"
  using assms
proof (induction calls arbitrary: s)
  case Nil
  then show ?case by simp
next
  case (Cons call calls)
  obtain client user_input where call: "call = (client, user_input)" by (cases call)
  obtain s' res where r: "respond py client user_input s = (s', res)"
    by (cases "respond py client user_input s")
  from Cons.prems call r obtain out where out: "res = Inr out" and rest: "all_completed py calls s'"
    by (cases res) auto
  from respond_completed [OF r [unfolded out]]
  have step: "int (length (conversation_history s')) = int (length (conversation_history s)) + 2"
             "question_count s' = question_count s + 1"
    by auto
  from Cons.IH [OF rest] step show ?case
    by (simp add: call r)
qed

text \<open>
  C9 (as amended). In a session whose advance calls have all completed, at every
  point after begin and after each advance the history has twice the turn count plus
  one entries: begin leaves one entry and no turn, and each advance appends the
  candidate's entry and the interviewer's entry, nothing else, and counts one turn.
\<close>

theorem history_length_invariant:
  assumes "start_interview py client candidate_name role s0 = (s, Inr opening)"
    and "all_completed py calls s"
    and "n \<le> length calls"
  shows "length (conversation_history s) = 1 \<and> question_count s = 0 \<and>
         int (length (conversation_history (advance_all py (take n calls) s))) =
           2 * question_count (advance_all py (take n calls) s) + 1 \<and>
         question_count (advance_all py (take n calls) s) = int n \<and>
         (n < length calls \<longrightarrow>
            (\<exists>response.
               conversation_history (advance_all py (take (Suc n) calls) s) =
                 conversation_history (advance_all py (take n calls) s) @
                   [(''user'', snd (calls ! n)), (''assistant'', response)]))"
proof -
  from start_interview_completed [OF assms(1)]
  have b: "length (conversation_history s) = 1" "question_count s = 0" by auto
  have pre: "all_completed py (take n calls) s"
    by (rule all_completed_take [OF assms(2)])
  from all_completed_invariant [OF pre] b assms(3)
  have inv: "int (length (conversation_history (advance_all py (take n calls) s))) =
               2 * question_count (advance_all py (take n calls) s) + 1"
            "question_count (advance_all py (take n calls) s) = int n"
    by (auto simp: min_def)
  have step: "\<exists>response.
               conversation_history (advance_all py (take (Suc n) calls) s) =
                 conversation_history (advance_all py (take n calls) s) @
                   [(''user'', snd (calls ! n)), (''assistant'', response)]"
    if lt: "n < length calls"
  proof -
    obtain client' user_input where c: "calls ! n = (client', user_input)"
      by (cases "calls ! n")
    from lt have tk: "take (Suc n) calls = take n calls @ [(client', user_input)]"
      by (simp add: take_Suc_conv_app_nth c)
    have "all_completed py (take (Suc n) calls) s"
      by (rule all_completed_take [OF assms(2)])
    then have last: "all_completed py [(client', user_input)] (advance_all py (take n calls) s)"
      by (simp only: tk all_completed_append)
    obtain s' res where r: "respond py client' user_input (advance_all py (take n calls) s) = (s', res)"
      by (cases "respond py client' user_input (advance_all py (take n calls) s)")
    with last obtain out where "res = Inr out" by (cases res) auto
    with r respond_completed have "\<exists>response. conversation_history s' =
        conversation_history (advance_all py (take n calls) s) @
          [(''user'', user_input), (''assistant'', response)]"
      by blast
    then show ?thesis by (simp add: tk advance_all_append r c)
  qed
  from b inv step show ?thesis by blast
qed

theorem history_length_invariant_witness:
  "start_interview ascii_text (replies ''Hello Alex. Tell me about your background?'')
       ''Alex'' ''Backend Engineer'' new_GroqLLM
     = (opened_session, Inr ''Hello Alex. Tell me about your background?'') \<and>
   all_completed ascii_text [(replies ''How would you design a cache?'', ''I built payment services.'')]
     opened_session \<and>
   length (conversation_history opened_session) = 1 \<and> question_count opened_session = 0 \<and>
   int (length (conversation_history
          (advance_all ascii_text [(replies ''How would you design a cache?'', ''I built payment services.'')]
             opened_session))) = 3 \<and>
   question_count
     (advance_all ascii_text [(replies ''How would you design a cache?'', ''I built payment services.'')]
        opened_session) = 1 \<and>
   (\<exists>response.
      conversation_history
        (advance_all ascii_text [(replies ''How would you design a cache?'', ''I built payment services.'')]
           opened_session) =
      conversation_history opened_session @
        [(''user'', ''I built payment services.''), (''assistant'', response)])"
proof -
  have b: "start_interview ascii_text (replies ''Hello Alex. Tell me about your background?'')
             ''Alex'' ''Backend Engineer'' new_GroqLLM
           = (opened_session, Inr ''Hello Alex. Tell me about your background?'')"
    by code_simp
  have c: "all_completed ascii_text
             [(replies ''How would you design a cache?'', ''I built payment services.'')]
             opened_session"
    by code_simp
  from history_length_invariant [OF b c, of 1] history_length_invariant [OF b c, of 0] b c
  show ?thesis by simp
qed

text \<open>
  C9 (as stated) fails once an advance call has failed: the candidate's entry and the
  turn count of the failed call stay, so after the next completed advance the history
  has four entries at turn count two.
\<close>

theorem history_length_after_failed_advance:
  "length (conversation_history failed_then_completed) = 4 \<and>
   question_count failed_then_completed = 2 \<and>
   int (length (conversation_history failed_then_completed)) \<noteq>
     2 * question_count failed_then_completed + 1"
  by code_simp

text \<open>
  C1. After a farewell the session is complete and satisfied; a further advance whose
  generated text has no farewell keeps the session complete and moves the
  satisfaction level back to almost satisfied.
\<close>

theorem satisfied_level_reverts:
  "satisfaction_level closed_session = satisfied \<and> interview_satisfied closed_session \<and>
   interview_satisfied
     (fst (respond ascii_text (replies ''Could you say a bit more?'') ''One more thing.'' closed_session)) \<and>
   satisfaction_level
     (fst (respond ascii_text (replies ''Could you say a bit more?'') ''One more thing.'' closed_session))
     = almost_satisfied"
  by code_simp

section \<open>Properties of the recorder\<close>

lemma double_rounding_mono:
  assumes "double_rounding fl" and "x \<le> y"
  shows "fl x \<le> fl y"
  using assms by (simp add: double_rounding_def)

lemma double_rounding_int:
  assumes "double_rounding fl" and "\<bar>k\<bar> \<le> 2 ^ 53"
  shows "fl (real_of_int k) = real_of_int k"
proof -
  from assms have "fl (real_of_int k / 2 ^ (0::nat)) = real_of_int k / 2 ^ (0::nat)"
    unfolding double_rounding_def by blast
  then show ?thesis by simp
qed

lemma double_rounding_less:
  assumes "double_rounding fl" and "\<bar>k\<bar> \<le> 2 ^ 53" and "fl x < real_of_int k"
  shows "x < real_of_int k"
proof (rule ccontr)
  assume "\<not> x < real_of_int k"
  then have "real_of_int k \<le> x" by simp
  then have "fl (real_of_int k) \<le> fl x" by (rule double_rounding_mono [OF assms(1)])
  with double_rounding_int [OF assms(1,2)] assms(3) show False by simp
qed

lemma double_rounding_le:
  assumes "double_rounding fl" and "\<bar>k\<bar> \<le> 2 ^ 53" and "x \<le> real_of_int k"
  shows "fl x \<le> real_of_int k"
  using double_rounding_mono [OF assms(1,3)] double_rounding_int [OF assms(1,2)] by simp

lemma exact_rounding: "double_rounding exact"
  by (simp add: double_rounding_def exact_def)

lemma py_int_less:
  assumes "py_int y < q" and "0 \<le> q"
  shows "y < real_of_int q"
proof (cases "0 \<le> y")
  case True
  with assms(1) show ?thesis by (simp add: py_int_def floor_less_iff)
next
  case False
  with assms(2) show ?thesis by simp
qed

lemma py_int_le:
  assumes "y \<le> real_of_int q" and "0 \<le> q"
  shows "py_int y \<le> q"
proof (cases "0 \<le> y")
  case True
  from assms(1) have "y < real_of_int q + 1" by simp
  with True show ?thesis by (simp add: py_int_def floor_le_iff)
next
  case False
  then have "\<lceil>y\<rceil> \<le> 0" by simp
  with assms(2) have "\<lceil>y\<rceil> \<le> q" by linarith
  with False show ?thesis by (simp add: py_int_def)
qed

lemma whole_chunks_value:
  assumes "double_rounding fl" and "\<bar>rate\<bar> \<le> 2 ^ 53" and "whole_chunks fl d rate = Inr n"
  shows "n = py_int (fl (fl (d * real_of_int rate) / 1024))"
  using assms(3) double_rounding_int [OF assms(1,2)]
  by (simp add: whole_chunks_def Let_def split: if_splits)

lemma whole_chunks_less:
  assumes "double_rounding fl" and "\<bar>rate\<bar> \<le> 2 ^ 53" and "whole_chunks fl d rate = Inr n"
    and "0 \<le> q" and "1024 * q \<le> 2 ^ 53" and "n < q"
  shows "d * real_of_int rate < 1024 * real_of_int q"
proof -
  have q: "\<bar>q\<bar> \<le> 2 ^ 53" and q': "\<bar>1024 * q\<bar> \<le> 2 ^ 53"
    using assms(4,5) by simp_all
  from assms(6) whole_chunks_value [OF assms(1,2,3)]
  have "py_int (fl (fl (d * real_of_int rate) / 1024)) < q" by simp
  then have "fl (fl (d * real_of_int rate) / 1024) < real_of_int q"
    using assms(4) by (rule py_int_less)
  then have "fl (d * real_of_int rate) / 1024 < real_of_int q"
    by (rule double_rounding_less [OF assms(1) q])
  then have "fl (d * real_of_int rate) < real_of_int (1024 * q)" by simp
  then have "d * real_of_int rate < real_of_int (1024 * q)"
    by (rule double_rounding_less [OF assms(1) q'])
  then show ?thesis by simp
qed

lemma whole_chunks_le:
  assumes "double_rounding fl" and "\<bar>rate\<bar> \<le> 2 ^ 53" and "whole_chunks fl d rate = Inr n"
    and "0 \<le> q" and "1024 * q \<le> 2 ^ 53" and "d * real_of_int rate \<le> 1024 * real_of_int q"
  shows "n \<le> q"
proof -
  have q: "\<bar>q\<bar> \<le> 2 ^ 53" and q': "\<bar>1024 * q\<bar> \<le> 2 ^ 53"
    using assms(4,5) by simp_all
  from assms(6) have "d * real_of_int rate \<le> real_of_int (1024 * q)" by simp
  then have "fl (d * real_of_int rate) \<le> real_of_int (1024 * q)"
    by (rule double_rounding_le [OF assms(1) q'])
  then have "fl (d * real_of_int rate) / 1024 \<le> real_of_int q" by simp
  then have "fl (fl (d * real_of_int rate) / 1024) \<le> real_of_int q"
    by (rule double_rounding_le [OF assms(1) q])
  then have "py_int (fl (fl (d * real_of_int rate) / 1024)) \<le> q"
    using assms(4) by (rule py_int_le)
  with whole_chunks_value [OF assms(1,2,3)] show ?thesis by simp
qed

lemma scaled_less_iff:
  assumes "0 < sample_rate r"
  shows "d * real_of_int (sample_rate r) < 1024 * q \<longleftrightarrow> d < q * chunk_duration r"
  using assms by (simp add: chunk_duration_def field_simps)

lemma scaled_le_iff:
  assumes "0 < sample_rate r"
  shows "d * real_of_int (sample_rate r) \<le> 1024 * q \<longleftrightarrow> d \<le> q * chunk_duration r"
  using assms by (simp add: chunk_duration_def field_simps)

lemma square_fits:
  fixes x :: "16 word"
  assumes "\<bar>sint x\<bar> \<le> 181"
  shows "sint (x * x) = sint x * sint x"
proof -
  have "sint x * sint x = \<bar>sint x\<bar> * \<bar>sint x\<bar>" by (simp add: abs_mult_self_eq)
  also have "\<dots> \<le> 181 * 181" using assms by (intro mult_mono) simp_all
  finally have up: "sint x * sint x < 2 ^ 15" by simp
  have "(- (2 ^ 15) :: int) \<le> 0" by simp
  also have "0 \<le> sint x * sint x" by simp
  finally have lo: "- (2 ^ 15) \<le> sint x * sint x" .
  show ?thesis
    by (simp add: sint_word_mult signed_take_bit_int_eq_self [OF lo up])
qed

lemma squares_fit:
  assumes "fits_int16 indata"
  shows "map (\<lambda>x. sint (x * x)) indata = map (\<lambda>x. sint x * sint x) indata"
  using assms by (simp add: fits_int16_def square_fits)

lemma sum_squares_nonneg: "0 \<le> sum_list (map (\<lambda>x. sint x * sint x) (indata :: chunk))"
  by (induction indata) simp_all

lemma np_rms_energy:
  assumes "double_rounding fl" and "indata \<noteq> []" and "fits_int16 indata"
  shows "np_rms fl indata = Some (rms_energy fl indata)"
proof -
  let ?mean = "real_of_int (sum_list (map (\<lambda>x. sint x * sint x) indata)) / real (length indata)"
  have "0 \<le> ?mean" using sum_squares_nonneg [of indata] by simp
  then have "fl 0 \<le> fl ?mean" by (rule double_rounding_mono [OF assms(1)])
  moreover have "fl 0 = 0" using double_rounding_int [OF assms(1), of 0] by simp
  ultimately have "\<not> fl ?mean < 0" by simp
  then show ?thesis
    using assms(2) by (simp add: np_rms_def rms_energy_def Let_def squares_fit [OF assms(3)])
qed

lemma rms_below_energy:
  assumes "double_rounding fl" and "indata \<noteq> []" and "fits_int16 indata"
  shows "rms_below fl thr indata \<longleftrightarrow> rms_energy fl indata < thr"
  by (simp add: rms_below_def np_rms_energy [OF assms])

lemma callback_chunks:
  "audio_chunks (fst (callback fl thr min_n required_n indata st)) = audio_chunks st @ [indata]"
  by (simp add: callback_def Let_def)

lemma callback_silence_samples:
  "silence_samples (fst (callback fl thr min_n required_n indata st)) =
     (if rms_below fl thr indata \<and> min_n < int (length (audio_chunks st @ [indata]))
      then silence_samples st + 1 else 0)"
  by (simp add: callback_def Let_def)

lemma callback_stop:
  "snd (callback fl thr min_n required_n indata st) \<longleftrightarrow>
     required_n \<le> silence_samples (fst (callback fl thr min_n required_n indata st))"
  by (simp add: callback_def Let_def)

lemma callback_loud:
  assumes "\<not> rms_below fl thr indata" and "1 \<le> required_n"
  shows "callback fl thr min_n required_n indata st =
           (\<lparr>audio_chunks = audio_chunks st @ [indata], silence_samples = 0\<rparr>, False)"
  using assms by (simp add: callback_def Let_def)

lemma callback_early:
  assumes "int (length (audio_chunks st)) + 1 \<le> min_n" and "1 \<le> required_n"
  shows "callback fl thr min_n required_n indata st =
           (\<lparr>audio_chunks = audio_chunks st @ [indata], silence_samples = 0\<rparr>, False)"
  using assms by (simp add: callback_def Let_def)

lemma callback_quiet:
  assumes "rms_below fl thr indata" and "min_n \<le> int (length (audio_chunks st))"
  shows "callback fl thr min_n required_n indata st =
           (\<lparr>audio_chunks = audio_chunks st @ [indata], silence_samples = silence_samples st + 1\<rparr>,
            required_n \<le> silence_samples st + 1)"
  using assms by (simp add: callback_def Let_def)

lemma run_stream_loud:
  assumes "\<forall>c\<in>set L. \<not> rms_below fl thr c" and "1 \<le> required_n"
  shows "run_stream fl thr min_n required_n (L @ rest) st =
           run_stream fl thr min_n required_n rest
             \<lparr>audio_chunks = audio_chunks st @ L,
              silence_samples = (if L = [] then silence_samples st else 0)\<rparr>"
  using assms
proof (induction L arbitrary: st)
  case Nil
  then show ?case by (cases st) simp
next
  case (Cons c L)
  then have "callback fl thr min_n required_n c st =
           (\<lparr>audio_chunks = audio_chunks st @ [c], silence_samples = 0\<rparr>, False)"
    by (simp add: callback_loud)
  with Cons show ?case by simp
qed

lemma run_stream_early:
  assumes "int (length (audio_chunks st) + length S) \<le> min_n" and "1 \<le> required_n"
  shows "run_stream fl thr min_n required_n S st =
           (\<lparr>audio_chunks = audio_chunks st @ S,
             silence_samples = (if S = [] then silence_samples st else 0)\<rparr>, False)"
  using assms
proof (induction S arbitrary: st)
  case Nil
  then show ?case by (cases st) simp
next
  case (Cons c S)
  then have "callback fl thr min_n required_n c st =
           (\<lparr>audio_chunks = audio_chunks st @ [c], silence_samples = 0\<rparr>, False)"
    by (simp add: callback_early)
  with Cons show ?case by simp
qed

lemma run_stream_quiet:
  assumes "\<forall>c\<in>set Q. rms_below fl thr c"
    and "min_n \<le> int (length (audio_chunks st))"
    and "silence_samples st < required_n"
    and "required_n - silence_samples st \<le> int (length Q)"
  shows "run_stream fl thr min_n required_n Q st =
           (\<lparr>audio_chunks = audio_chunks st @ take (nat (required_n - silence_samples st)) Q,
             silence_samples = required_n\<rparr>, True)"
  using assms
proof (induction Q arbitrary: st)
  case Nil
  then show ?case by simp
next
  case (Cons c Q)
  let ?st = "\<lparr>audio_chunks = audio_chunks st @ [c], silence_samples = silence_samples st + 1\<rparr>"
  from Cons.prems have cb: "callback fl thr min_n required_n c st =
      (?st, required_n \<le> silence_samples st + 1)"
    by (simp add: callback_quiet)
  show ?case
  proof (cases "required_n \<le> silence_samples st + 1")
    case True
    with Cons.prems(3) have "required_n = silence_samples st + 1" by simp
    with cb show ?thesis by simp
  next
    case False
    with Cons.prems have "run_stream fl thr min_n required_n Q ?st =
        (\<lparr>audio_chunks = audio_chunks ?st @ take (nat (required_n - silence_samples ?st)) Q,
          silence_samples = required_n\<rparr>, True)"
      by (intro Cons.IH) auto
    moreover from False have "nat (required_n - silence_samples st) =
        Suc (nat (required_n - (silence_samples st + 1)))" by simp
    ultimately show ?thesis using cb False by simp
  qed
qed

lemma run_stream_loud_then_quiet:
  assumes "\<forall>c\<in>set L. \<not> rms_below fl thr c" and "\<forall>c\<in>set Q. rms_below fl thr c"
    and "min_n \<le> int (length L)" and "1 \<le> required_n" and "required_n \<le> int (length Q)"
  shows "run_stream fl thr min_n required_n (L @ Q) \<lparr>audio_chunks = [], silence_samples = 0\<rparr> =
           (\<lparr>audio_chunks = L @ take (nat required_n) Q, silence_samples = required_n\<rparr>, True)"
proof -
  have "run_stream fl thr min_n required_n (L @ Q) \<lparr>audio_chunks = [], silence_samples = 0\<rparr> =
          run_stream fl thr min_n required_n Q \<lparr>audio_chunks = L, silence_samples = 0\<rparr>"
    using assms(1,4) by (simp add: run_stream_loud)
  also have "\<dots> = (\<lparr>audio_chunks = L @ take (nat required_n) Q, silence_samples = required_n\<rparr>, True)"
    using run_stream_quiet [of Q fl thr min_n "\<lparr>audio_chunks = L, silence_samples = 0\<rparr>" required_n]
      assms by simp
  finally show ?thesis .
qed

lemma run_stream_stopped:
  assumes "run_stream fl thr min_n required_n stream st = (st', True)" and "1 \<le> required_n"
  shows "min_n < int (length (audio_chunks st')) \<and> 0 < length (audio_chunks st')"
  using assms
proof (induction stream arbitrary: st)
  case Nil
  then show ?case by simp
next
  case (Cons c stream)
  obtain st1 stop where cb: "callback fl thr min_n required_n c st = (st1, stop)"
    by (cases "callback fl thr min_n required_n c st")
  show ?case
  proof (cases stop)
    case True
    with cb Cons.prems have eq: "st' = st1" by simp
    from cb True Cons.prems(2)
    have "min_n < int (length (audio_chunks st1)) \<and> 0 < length (audio_chunks st1)"
      by (auto simp: callback_def Let_def split: if_splits)
    with eq show ?thesis by simp
  next
    case False
    with cb Cons.prems have "run_stream fl thr min_n required_n stream st1 = (st', True)" by simp
    then show ?thesis using Cons.IH Cons.prems(2) by blast
  qed
qed

lemma float_max_large: "2 ^ 53 \<le> float_max"
  by (simp add: float_max_def)

lemma whole_chunks_exact:
  assumes "double_rounding fl" and "\<bar>rate\<bar> \<le> 2 ^ 53"
    and "\<bar>k\<bar> \<le> 2 ^ 53" and "d * real_of_int rate = real_of_int k"
    and "\<bar>c\<bar> \<le> 2 ^ 53" and "j \<le> 1000" and "real_of_int k / 1024 = real_of_int c / 2 ^ j"
  shows "whole_chunks fl d rate = Inr (py_int (real_of_int c / 2 ^ j))"
proof -
  have r: "fl (real_of_int rate) = real_of_int rate"
    by (rule double_rounding_int [OF assms(1,2)])
  have p: "fl (d * real_of_int rate) = real_of_int k"
    using double_rounding_int [OF assms(1,3)] assms(4) by simp
  from assms(1,5,6) have "fl (real_of_int c / 2 ^ j) = real_of_int c / 2 ^ j"
    unfolding double_rounding_def by blast
  with assms(7) have q: "fl (real_of_int k / 1024) = real_of_int c / 2 ^ j" by simp
  have "\<bar>real_of_int rate\<bar> \<le> 2 ^ 53" using assms(2) by (metis of_int_abs of_int_le_numeral_power_cancel_iff)
  then have r': "\<not> float_max < \<bar>real_of_int rate\<bar>" using float_max_large by linarith
  have "\<bar>real_of_int k\<bar> \<le> 2 ^ 53" using assms(3) by (metis of_int_abs of_int_le_numeral_power_cancel_iff)
  then have p': "\<not> float_max < \<bar>real_of_int k\<bar>" using float_max_large by linarith
  show ?thesis
    using r' p' by (simp add: whole_chunks_def Let_def r p q)
qed

lemma recorder_required:
  assumes "double_rounding fl"
  shows "required_silence_samples fl recorder (3 / 2) = Inr 23"
proof -
  have "whole_chunks fl (3 / 2) 16000 = Inr (py_int (real_of_int 375 / 2 ^ 4))"
    by (rule whole_chunks_exact [OF assms, where k = 24000]) simp_all
  then show ?thesis
    by (simp add: required_silence_samples_def recorder_def py_int_def)
qed

lemma recorder_min_1:
  assumes "double_rounding fl"
  shows "min_samples fl recorder 1 = Inr 15"
proof -
  have "whole_chunks fl 1 16000 = Inr (py_int (real_of_int 125 / 2 ^ 3))"
    by (rule whole_chunks_exact [OF assms, where k = 16000]) simp_all
  then show ?thesis
    by (simp add: min_samples_def recorder_def py_int_def)
qed

lemma recorder_min_8:
  assumes "double_rounding fl"
  shows "min_samples fl recorder 8 = Inr 125"
proof -
  have "whole_chunks fl 8 16000 = Inr (py_int (real_of_int 125 / 2 ^ 0))"
    by (rule whole_chunks_exact [OF assms, where k = 128000]) simp_all
  then show ?thesis
    by (simp add: min_samples_def recorder_def py_int_def)
qed

lemma quiet_chunk_fits: "quiet_chunk \<noteq> [] \<and> fits_int16 quiet_chunk"
  by (simp add: quiet_chunk_def fits_int16_def)

lemma loud_chunk_fits: "loud_chunk \<noteq> [] \<and> fits_int16 loud_chunk"
  by (simp add: loud_chunk_def fits_int16_def)

lemma quiet_chunk_energy: "rms_energy exact quiet_chunk = 0"
  by (simp add: rms_energy_def exact_def quiet_chunk_def sum_list_replicate)

lemma loud_chunk_energy: "rms_energy exact loud_chunk = 100"
proof -
  have "sqrt 10000 = 100" using real_sqrt_abs [of 100] by simp
  then show ?thesis
    by (simp add: rms_energy_def exact_def loud_chunk_def sum_list_replicate)
qed

lemma quiet_chunk_quiet: "rms_below exact (1 / 128) quiet_chunk"
  using rms_below_energy [OF exact_rounding, of quiet_chunk "1 / 128"] quiet_chunk_fits
  by (simp add: quiet_chunk_energy)

lemma loud_chunk_loud: "\<not> rms_below exact (1 / 128) loud_chunk"
  using rms_below_energy [OF exact_rounding, of loud_chunk "1 / 128"] loud_chunk_fits
  by (simp add: loud_chunk_energy)

lemma recorded_loud_then_quiet:
  assumes "double_rounding fl"
    and "\<forall>c\<in>set L. c \<noteq> [] \<and> fits_int16 c \<and> \<not> rms_energy fl c < thr"
    and "\<forall>c\<in>set Q. c \<noteq> [] \<and> fits_int16 c \<and> rms_energy fl c < thr"
    and "required_silence_samples fl r silence_duration = Inr required_n"
    and "min_samples fl r min_duration = Inr min_n"
    and "min_n \<le> int (length L)" and "1 \<le> required_n" and "required_n \<le> int (length Q)"
  shows "record_with_silence_detection fl r thr silence_duration min_duration (L @ Q) =
           Inr (L @ take (nat required_n) Q, True)"
proof -
  from assms(2) have l: "\<forall>c\<in>set L. \<not> rms_below fl thr c"
    by (simp add: rms_below_energy [OF assms(1)])
  from assms(3) have q: "\<forall>c\<in>set Q. rms_below fl thr c"
    by (simp add: rms_below_energy [OF assms(1)])
  have "run_stream fl thr min_n required_n (L @ Q) \<lparr>audio_chunks = [], silence_samples = 0\<rparr> =
          (\<lparr>audio_chunks = L @ take (nat required_n) Q, silence_samples = required_n\<rparr>, True)"
    by (rule run_stream_loud_then_quiet [OF l q assms(6,7,8)])
  then show ?thesis
    by (simp add: record_with_silence_detection_def assms(4,5))
qed

lemma recorded_scenario:
  "record_with_silence_detection exact recorder (1 / 128) (3 / 2) 1
       (replicate 32 loud_chunk @ replicate 23 quiet_chunk)
     = Inr (replicate 32 loud_chunk @ replicate 23 quiet_chunk, True)"
proof -
  have "record_with_silence_detection exact recorder (1 / 128) (3 / 2) 1
       (replicate 32 loud_chunk @ replicate 23 quiet_chunk)
     = Inr (replicate 32 loud_chunk @ take (nat 23) (replicate 23 quiet_chunk), True)"
    by (rule recorded_loud_then_quiet
          [OF exact_rounding _ _ recorder_required [OF exact_rounding]
              recorder_min_1 [OF exact_rounding]])
       (simp_all add: loud_chunk_fits quiet_chunk_fits loud_chunk_energy quiet_chunk_energy)
  then show ?thesis by simp
qed

text \<open>
  C3 (as stated) fails: at 16 kHz the recorder asked for 1.5 s of silence stops after
  23 quiet blocks, which hold 1.472 s of audio. The stream is 32 loud blocks (every
  sample 100) and then quiet blocks (every sample 0), the threshold 1/128.
\<close>

theorem capture_stops_on_shorter_silence:
  "record_with_silence_detection exact recorder (1 / 128) (3 / 2) 1
       (replicate 32 loud_chunk @ replicate 23 quiet_chunk)
     = Inr (replicate 32 loud_chunk @ replicate 23 quiet_chunk, True) \<and>
   rms_energy exact loud_chunk = 100 \<and> rms_energy exact quiet_chunk = 0 \<and>
   \<not> rms_below exact (1 / 128) loud_chunk \<and> rms_below exact (1 / 128) quiet_chunk \<and>
   duration_of recorder 23 < 3 / 2"
proof -
  have "duration_of recorder 23 < 3 / 2"
    by (simp add: duration_of_def chunk_duration_def recorder_def)
  then show ?thesis
    by (simp add: recorded_scenario loud_chunk_energy quiet_chunk_energy
          loud_chunk_loud quiet_chunk_quiet)
qed

text \<open>
  C3 (as amended). The silence rule works on whole blocks. The required number of
  quiet blocks is the required duration times the sample rate over 1024, computed in
  double precision and truncated, and the callback stops the capture exactly when the
  run of quiet blocks has reached it. A run whose duration is at least the required
  duration has reached it, and a run that has reached it is less than one block short
  of the required duration: the silence at the stop can be shorter than required, by
  less than one block duration. On blocks whose squared samples fit 16 bits, a stream
  that is loud and then quiet, loud for at least the minimum number of blocks, is cut
  after exactly the required number of quiet blocks. At 16 kHz with 1.5 s required,
  such a stream with loud audio that ends at 2.0 s (in the 32nd block) gives a
  capture of 3.5 s up to one block duration, after 23 quiet blocks, which hold less
  than 1.5 s.
\<close>

theorem silence_rule_counts_whole_chunks:
  assumes "double_rounding fl" and "0 < sample_rate r" and "sample_rate r \<le> 2 ^ 53"
    and "required_silence_samples fl r silence_duration = Inr required_n"
  shows "(snd (callback fl thr min_n required_n indata st) \<longleftrightarrow>
            required_n \<le> silence_samples (fst (callback fl thr min_n required_n indata st))) \<and>
         (0 \<le> q \<and> 1024 * q \<le> 2 ^ 53 \<and> silence_duration \<le> real_of_int q * chunk_duration r
            \<longrightarrow> required_n \<le> q) \<and>
         (0 \<le> q \<and> 1024 * (q + 1) \<le> 2 ^ 53 \<and> required_n \<le> q
            \<longrightarrow> silence_duration < (real_of_int q + 1) * chunk_duration r) \<and>
         ((\<forall>c\<in>set L. c \<noteq> [] \<and> fits_int16 c \<and> \<not> rms_energy fl c < thr) \<and>
          (\<forall>c\<in>set Q. c \<noteq> [] \<and> fits_int16 c \<and> rms_energy fl c < thr) \<and>
          min_samples fl r min_duration = Inr m \<and> m \<le> int (length L) \<and>
          1 \<le> required_n \<and> required_n \<le> int (length Q) \<longrightarrow>
            record_with_silence_detection fl r thr silence_duration min_duration (L @ Q) =
              Inr (L @ take (nat required_n) Q, True)) \<and>
         ((\<forall>c\<in>set L. c \<noteq> [] \<and> fits_int16 c \<and> \<not> rms_energy fl c < thr) \<and>
          (\<forall>c\<in>set Q. c \<noteq> [] \<and> fits_int16 c \<and> rms_energy fl c < thr) \<and>
          (length L = 31 \<or> length L = 32) \<and> 23 \<le> length Q \<longrightarrow>
            record_with_silence_detection fl recorder thr (3 / 2) 1 (L @ Q) =
              Inr (L @ take 23 Q, True) \<and>
            \<bar>duration_of recorder (length (L @ take 23 Q)) - 7 / 2\<bar> \<le> chunk_duration recorder \<and>
            duration_of recorder 23 < 3 / 2)"
proof (intro conjI impI)
  have rate: "\<bar>sample_rate r\<bar> \<le> 2 ^ 53" using assms(2,3) by simp
  have wc: "whole_chunks fl silence_duration (sample_rate r) = Inr required_n"
    using assms(4) by (simp add: required_silence_samples_def)
  show "snd (callback fl thr min_n required_n indata st) \<longleftrightarrow>
          required_n \<le> silence_samples (fst (callback fl thr min_n required_n indata st))"
    by (rule callback_stop)
  {
    assume h: "0 \<le> q \<and> 1024 * q \<le> 2 ^ 53 \<and> silence_duration \<le> real_of_int q * chunk_duration r"
    then have "silence_duration * real_of_int (sample_rate r) \<le> 1024 * real_of_int q"
      by (simp only: scaled_le_iff [OF assms(2)])
    with h show "required_n \<le> q"
      by (intro whole_chunks_le [OF assms(1) rate wc]) simp_all
  }
  {
    assume h: "0 \<le> q \<and> 1024 * (q + 1) \<le> 2 ^ 53 \<and> required_n \<le> q"
    then have "silence_duration * real_of_int (sample_rate r) < 1024 * real_of_int (q + 1)"
      by (intro whole_chunks_less [OF assms(1) rate wc]) simp_all
    then have "silence_duration < real_of_int (q + 1) * chunk_duration r"
      by (simp only: scaled_less_iff [OF assms(2)])
    then show "silence_duration < (real_of_int q + 1) * chunk_duration r" by simp
  }
  {
    assume h: "(\<forall>c\<in>set L. c \<noteq> [] \<and> fits_int16 c \<and> \<not> rms_energy fl c < thr) \<and>
          (\<forall>c\<in>set Q. c \<noteq> [] \<and> fits_int16 c \<and> rms_energy fl c < thr) \<and>
          min_samples fl r min_duration = Inr m \<and> m \<le> int (length L) \<and>
          1 \<le> required_n \<and> required_n \<le> int (length Q)"
    then have l: "\<forall>c\<in>set L. c \<noteq> [] \<and> fits_int16 c \<and> \<not> rms_energy fl c < thr"
      and q: "\<forall>c\<in>set Q. c \<noteq> [] \<and> fits_int16 c \<and> rms_energy fl c < thr"
      and m: "min_samples fl r min_duration = Inr m"
      and b: "m \<le> int (length L)" "1 \<le> required_n" "required_n \<le> int (length Q)"
      by blast+
    show "record_with_silence_detection fl r thr silence_duration min_duration (L @ Q) =
              Inr (L @ take (nat required_n) Q, True)"
      by (rule recorded_loud_then_quiet [OF assms(1) l q assms(4) m b])
  }
  {
    assume h: "(\<forall>c\<in>set L. c \<noteq> [] \<and> fits_int16 c \<and> \<not> rms_energy fl c < thr) \<and>
          (\<forall>c\<in>set Q. c \<noteq> [] \<and> fits_int16 c \<and> rms_energy fl c < thr) \<and>
          (length L = 31 \<or> length L = 32) \<and> 23 \<le> length Q"
    then have l: "\<forall>c\<in>set L. c \<noteq> [] \<and> fits_int16 c \<and> \<not> rms_energy fl c < thr"
      and q: "\<forall>c\<in>set Q. c \<noteq> [] \<and> fits_int16 c \<and> rms_energy fl c < thr"
      by blast+
    from h have b: "15 \<le> int (length L)" "(1::int) \<le> 23" "23 \<le> int (length Q)"
      by auto
    have "record_with_silence_detection fl recorder thr (3 / 2) 1 (L @ Q) =
              Inr (L @ take (nat 23) Q, True)"
      by (rule recorded_loud_then_quiet
            [OF assms(1) l q recorder_required [OF assms(1)] recorder_min_1 [OF assms(1)] b])
    then show "record_with_silence_detection fl recorder thr (3 / 2) 1 (L @ Q) =
              Inr (L @ take 23 Q, True)"
      by simp
    define n where "n = length (L @ take 23 Q)"
    from h have "n = 54 \<or> n = 55"
      by (auto simp: n_def)
    then have "\<bar>duration_of recorder n - 7 / 2\<bar> \<le> chunk_duration recorder"
      by (auto simp: duration_of_def chunk_duration_def recorder_def)
    then show "\<bar>duration_of recorder (length (L @ take 23 Q)) - 7 / 2\<bar> \<le> chunk_duration recorder"
      by (simp only: n_def)
    show "duration_of recorder 23 < 3 / 2"
      by (simp add: duration_of_def chunk_duration_def recorder_def)
  }
qed

theorem silence_rule_counts_whole_chunks_witness:
  "double_rounding exact \<and> 0 < sample_rate recorder \<and> sample_rate recorder \<le> 2 ^ 53 \<and>
   required_silence_samples exact recorder (3 / 2) = Inr 23 \<and>
   min_samples exact recorder 1 = Inr 15 \<and>
   loud_chunk \<noteq> [] \<and> fits_int16 loud_chunk \<and> \<not> rms_energy exact loud_chunk < 1 / 128 \<and>
   quiet_chunk \<noteq> [] \<and> fits_int16 quiet_chunk \<and> rms_energy exact quiet_chunk < 1 / 128 \<and>
   3 / 2 \<le> real_of_int 24 * chunk_duration recorder \<and> (23::int) \<le> 24 \<and>
   3 / 2 < (real_of_int 23 + 1) * chunk_duration recorder \<and>
   record_with_silence_detection exact recorder (1 / 128) (3 / 2) 1
       (replicate 32 loud_chunk @ replicate 23 quiet_chunk)
     = Inr (replicate 32 loud_chunk @ replicate 23 quiet_chunk, True) \<and>
   \<bar>duration_of recorder 55 - 7 / 2\<bar> \<le> chunk_duration recorder \<and>
   duration_of recorder 23 < 3 / 2"
proof -
  have a: "0 < sample_rate recorder" and b: "sample_rate recorder \<le> 2 ^ 53"
    by (simp_all add: recorder_def)
  note n = recorder_required [OF exact_rounding]
  note m = recorder_min_1 [OF exact_rounding]
  have d: "3 / 2 \<le> real_of_int 24 * chunk_duration recorder"
    by (simp add: chunk_duration_def recorder_def)
  have l: "\<forall>c\<in>set (replicate 32 loud_chunk).
             c \<noteq> [] \<and> fits_int16 c \<and> \<not> rms_energy exact c < 1 / 128"
    by (simp add: loud_chunk_fits loud_chunk_energy)
  have q: "\<forall>c\<in>set (replicate 23 quiet_chunk).
             c \<noteq> [] \<and> fits_int16 c \<and> rms_energy exact c < 1 / 128"
    by (simp add: quiet_chunk_fits quiet_chunk_energy)
  from silence_rule_counts_whole_chunks
         [where fl = exact and r = recorder and silence_duration = "3 / 2" and required_n = 23
            and q = 24 and thr = "1 / 128" and min_duration = 1 and m = 15
            and L = "replicate 32 loud_chunk" and Q = "replicate 23 quiet_chunk",
          OF exact_rounding a b n]
       d l q m
  have one: "(23::int) \<le> 24"
    and run: "record_with_silence_detection exact recorder (1 / 128) (3 / 2) 1
       (replicate 32 loud_chunk @ replicate 23 quiet_chunk)
     = Inr (replicate 32 loud_chunk @ replicate 23 quiet_chunk, True)"
    and dur: "\<bar>duration_of recorder 55 - 7 / 2\<bar> \<le> chunk_duration recorder"
    and short: "duration_of recorder 23 < 3 / 2"
    by simp_all
  from silence_rule_counts_whole_chunks
         [where fl = exact and r = recorder and silence_duration = "3 / 2" and required_n = 23
            and q = 23, OF exact_rounding a b n]
  have two: "3 / 2 < (real_of_int 23 + 1) * chunk_duration recorder"
    by simp
  from exact_rounding a b n m d one two run dur short show ?thesis
    by (simp add: loud_chunk_fits quiet_chunk_fits loud_chunk_energy quiet_chunk_energy)
qed

lemma early_scenario:
  "run_stream exact (1 / 128) 125 23 (replicate 125 quiet_chunk)
       \<lparr>audio_chunks = [], silence_samples = 0\<rparr>
     = (\<lparr>audio_chunks = replicate 125 quiet_chunk, silence_samples = 0\<rparr>, False)"
  using run_stream_early [of "\<lparr>audio_chunks = [], silence_samples = 0\<rparr>"
          "replicate 125 quiet_chunk" 125 23 exact "1 / 128"]
  by simp

text \<open>
  C4 (as stated) fails at the boundary: with a minimum duration of 8 s at 16 kHz the
  125th block completes exactly 8 s of buffered audio, and a quiet 125th block is not
  counted. The blocks are quiet (every sample 0), the threshold 1/128.
\<close>

theorem quiet_chunk_at_min_duration_not_counted:
  "min_samples exact recorder 8 = Inr 125 \<and>
   required_silence_samples exact recorder (3 / 2) = Inr 23 \<and>
   rms_energy exact quiet_chunk = 0 \<and> rms_below exact (1 / 128) quiet_chunk \<and>
   8 \<le> duration_of recorder 125 \<and>
   run_stream exact (1 / 128) 125 23 (replicate 125 quiet_chunk)
       \<lparr>audio_chunks = [], silence_samples = 0\<rparr>
     = (\<lparr>audio_chunks = replicate 125 quiet_chunk, silence_samples = 0\<rparr>, False) \<and>
   record_with_silence_detection exact recorder (1 / 128) (3 / 2) 8 (replicate 125 quiet_chunk)
     = Inr (replicate 125 quiet_chunk, False)"
proof -
  have "8 \<le> duration_of recorder 125"
    by (simp add: duration_of_def chunk_duration_def recorder_def)
  then show ?thesis
    by (simp add: record_with_silence_detection_def early_scenario quiet_chunk_quiet
          quiet_chunk_energy recorder_required [OF exact_rounding]
          recorder_min_8 [OF exact_rounding])
qed

text \<open>
  C4 (as amended). For every block the callback appends it. A block whose squared
  samples fit 16 bits is counted as quiet when its RMS energy is below the threshold
  and the number of buffered blocks, this one included, is greater than the minimum
  number of blocks, which is the minimum duration times the sample rate over 1024,
  computed in double precision and truncated; in every other case the count is reset
  to zero. More blocks than the minimum number hold strictly more audio than the
  minimum duration, and once the blocks before this one hold the minimum duration
  there are more blocks than the minimum number. So when the silence rule needs at
  least one quiet block, a capture it ends holds strictly more than the minimum
  duration of audio.
\<close>

theorem quiet_counted_after_min_duration:
  assumes "double_rounding fl" and "0 < sample_rate r" and "sample_rate r \<le> 2 ^ 53"
    and "min_samples fl r min_duration = Inr min_n"
  shows "audio_chunks (fst (callback fl thr min_n required_n indata st))
           = audio_chunks st @ [indata] \<and>
         (indata \<noteq> [] \<and> fits_int16 indata \<longrightarrow>
            silence_samples (fst (callback fl thr min_n required_n indata st))
              = (if rms_energy fl indata < thr \<and> min_n < int (length (audio_chunks st @ [indata]))
                 then silence_samples st + 1 else 0)) \<and>
         (1024 * int k \<le> 2 ^ 53 \<and> min_n < int k \<longrightarrow> min_duration < duration_of r k) \<and>
         (0 < k \<and> 1024 * int k \<le> 2 ^ 53 \<and> min_duration \<le> duration_of r (k - 1)
            \<longrightarrow> min_n < int k) \<and>
         (required_silence_samples fl r silence_duration = Inr n \<and> 1 \<le> n \<and>
          record_with_silence_detection fl r thr silence_duration min_duration stream
            = Inr (chunks, True) \<and>
          1024 * int (length chunks) \<le> 2 ^ 53
            \<longrightarrow> min_duration < duration_of r (length chunks))"
proof (intro conjI impI)
  have rate: "\<bar>sample_rate r\<bar> \<le> 2 ^ 53" using assms(2,3) by simp
  have wc: "whole_chunks fl min_duration (sample_rate r) = Inr min_n"
    using assms(4) by (simp add: min_samples_def)
  have more: "min_duration < duration_of r j" if "1024 * int j \<le> 2 ^ 53" and "min_n < int j" for j
  proof -
    from that have "min_duration * real_of_int (sample_rate r) < 1024 * real_of_int (int j)"
      by (intro whole_chunks_less [OF assms(1) rate wc]) simp_all
    then have "min_duration < real_of_int (int j) * chunk_duration r"
      by (simp only: scaled_less_iff [OF assms(2)])
    then show ?thesis by (simp add: duration_of_def)
  qed
  show "audio_chunks (fst (callback fl thr min_n required_n indata st)) = audio_chunks st @ [indata]"
    by (rule callback_chunks)
  {
    assume "indata \<noteq> [] \<and> fits_int16 indata"
    then have "rms_below fl thr indata \<longleftrightarrow> rms_energy fl indata < thr"
      by (simp add: rms_below_energy [OF assms(1)])
    then show "silence_samples (fst (callback fl thr min_n required_n indata st))
              = (if rms_energy fl indata < thr \<and> min_n < int (length (audio_chunks st @ [indata]))
                 then silence_samples st + 1 else 0)"
      by (simp only: callback_silence_samples)
  }
  {
    assume "1024 * int k \<le> 2 ^ 53 \<and> min_n < int k"
    then show "min_duration < duration_of r k" using more by blast
  }
  {
    assume h: "0 < k \<and> 1024 * int k \<le> 2 ^ 53 \<and> min_duration \<le> duration_of r (k - 1)"
    then obtain j where k: "k = Suc j" by (cases k) auto
    from h have "min_duration \<le> real_of_int (int j) * chunk_duration r"
      by (simp add: duration_of_def k)
    then have "min_duration * real_of_int (sample_rate r) \<le> 1024 * real_of_int (int j)"
      by (simp only: scaled_le_iff [OF assms(2)])
    moreover from h have "1024 * int j \<le> 2 ^ 53" by (simp add: k)
    ultimately have "min_n \<le> int j"
      by (intro whole_chunks_le [OF assms(1) rate wc]) simp_all
    then show "min_n < int k" by (simp add: k)
  }
  {
    assume h: "required_silence_samples fl r silence_duration = Inr n \<and> 1 \<le> n \<and>
          record_with_silence_detection fl r thr silence_duration min_duration stream
            = Inr (chunks, True) \<and>
          1024 * int (length chunks) \<le> 2 ^ 53"
    obtain st' stopped where rs: "run_stream fl thr min_n n stream
             \<lparr>audio_chunks = [], silence_samples = 0\<rparr> = (st', stopped)"
      by (cases "run_stream fl thr min_n n stream \<lparr>audio_chunks = [], silence_samples = 0\<rparr>")
    from h have hn: "required_silence_samples fl r silence_duration = Inr n"
      and hr: "record_with_silence_detection fl r thr silence_duration min_duration stream
                 = Inr (chunks, True)"
      by blast+
    from hr have c: "chunks = audio_chunks st'" and s: "stopped"
      by (simp_all add: record_with_silence_detection_def hn assms(4) rs)
    from rs s have "run_stream fl thr min_n n stream
             \<lparr>audio_chunks = [], silence_samples = 0\<rparr> = (st', True)"
      by simp
    from run_stream_stopped [OF this] h c
    have "min_n < int (length chunks)" by simp
    with h show "min_duration < duration_of r (length chunks)" using more by blast
  }
qed

theorem quiet_counted_after_min_duration_witness:
  "double_rounding exact \<and> 0 < sample_rate recorder \<and> sample_rate recorder \<le> 2 ^ 53 \<and>
   min_samples exact recorder 1 = Inr 15 \<and>
   quiet_chunk \<noteq> [] \<and> fits_int16 quiet_chunk \<and>
   silence_samples
     (fst (callback exact (1 / 128) 15 23 quiet_chunk
             \<lparr>audio_chunks = replicate 32 loud_chunk, silence_samples = 0\<rparr>)) = 1 \<and>
   1024 * int 16 \<le> 2 ^ 53 \<and> (15::int) < int 16 \<and> 1 < duration_of recorder 16 \<and>
   1 \<le> duration_of recorder (17 - 1) \<and> (15::int) < int 17 \<and>
   required_silence_samples exact recorder (3 / 2) = Inr 23 \<and>
   record_with_silence_detection exact recorder (1 / 128) (3 / 2) 1
       (replicate 32 loud_chunk @ replicate 23 quiet_chunk)
     = Inr (replicate 32 loud_chunk @ replicate 23 quiet_chunk, True) \<and>
   1 < duration_of recorder 55"
proof -
  have a: "0 < sample_rate recorder" and b: "sample_rate recorder \<le> 2 ^ 53"
    by (simp_all add: recorder_def)
  note n = recorder_required [OF exact_rounding]
  note m = recorder_min_1 [OF exact_rounding]
  note th = quiet_counted_after_min_duration
              [where fl = exact and r = recorder and min_duration = 1 and min_n = 15,
               OF exact_rounding a b m]
  from th [where indata = quiet_chunk and thr = "1 / 128" and required_n = 23
             and st = "\<lparr>audio_chunks = replicate 32 loud_chunk, silence_samples = 0\<rparr>"]
       quiet_chunk_fits
  have count: "silence_samples
     (fst (callback exact (1 / 128) 15 23 quiet_chunk
             \<lparr>audio_chunks = replicate 32 loud_chunk, silence_samples = 0\<rparr>)) = 1"
    by (simp add: quiet_chunk_energy)
  from th [where k = 16] have more: "1 < duration_of recorder 16" by simp
  have before: "1 \<le> duration_of recorder (17 - 1)"
    by (simp add: duration_of_def chunk_duration_def recorder_def)
  from th [where k = 17] before have counted: "(15::int) < int 17" by simp
  from th [where silence_duration = "3 / 2" and n = 23 and thr = "1 / 128"
             and stream = "replicate 32 loud_chunk @ replicate 23 quiet_chunk"
             and chunks = "replicate 32 loud_chunk @ replicate 23 quiet_chunk"]
       n recorded_scenario
  have long: "1 < duration_of recorder 55" by simp
  from exact_rounding a b m count more before counted n recorded_scenario long show ?thesis
    by (simp add: quiet_chunk_fits)
qed

section \<open>Properties of the registry and of the voice selection\<close>

lemma unknown_voice: "voice \<notin> fst ` set AURA_VOICES \<longleftrightarrow> map_of AURA_VOICES voice = None"
  by (simp add: map_of_eq_None_iff)

lemma robot_unknown: "''robot'' \<notin> fst ` set AURA_VOICES"
  by (simp add: AURA_VOICES_def)

lemma asteria_model: "map_of AURA_VOICES ''asteria'' = Some ''aura-asteria-en''"
  by (simp add: AURA_VOICES_def)

text \<open>
  C2 (as stated) fails: the end operation keeps the entry. After \<open>end_interview\<close> on
  the one session of the registry, the lookup of that session still answers with its
  state and transcript.
\<close>

theorem session_found_after_end:
  "snd (end_interview one_session ''session-1'') =
     Inr (''Interview ended'',
          [(''interviewer'', ''Hello Alex. Tell me about your background?'')],
          \<lparr>view_question_count = 0, view_main_questions_asked = 1,
           view_satisfaction_level = gathering_info, view_can_prompt_end = False,
           view_is_complete = False\<rparr>) \<and>
   get_interview_state (fst (end_interview one_session ''session-1'')) ''session-1'' =
     Inr (\<lparr>view_question_count = 0, view_main_questions_asked = 1,
           view_satisfaction_level = gathering_info, view_can_prompt_end = False,
           view_is_complete = False\<rparr>,
          [(''interviewer'', ''Hello Alex. Tell me about your background?'')]) \<and>
   get_interview_state (fst (end_interview one_session ''session-1'')) ''session-1''
     \<noteq> Inl (HTTPException 404)"
  by code_simp

text \<open>
  C2 (as amended). The lookup and the end operation both answer an unknown session id
  with the not-found error, never with a default session; on a known id they answer
  with the data of that session. The end operation leaves the registry as it is, so
  every lookup after it answers as before it.
\<close>

theorem registry_lookup_and_end:
  "(sessions session_id = None \<longrightarrow>
      get_interview_state sessions session_id = Inl (HTTPException 404) \<and>
      snd (end_interview sessions session_id) = Inl (HTTPException 404)) \<and>
   (\<forall>s. sessions session_id = Some s \<longrightarrow>
      get_interview_state sessions session_id =
        Inr (get_state (session_llm s), session_transcript s) \<and>
      snd (end_interview sessions session_id) =
        Inr (''Interview ended'', session_transcript s, get_state (session_llm s))) \<and>
   fst (end_interview sessions session_id) = sessions \<and>
   get_interview_state (fst (end_interview sessions session_id)) other_id =
     get_interview_state sessions other_id"
  by (cases "sessions session_id") (simp_all add: get_interview_state_def end_interview_def)

theorem registry_lookup_and_end_witness:
  "one_session ''nobody'' = None \<and>
   get_interview_state one_session ''nobody'' = Inl (HTTPException 404) \<and>
   snd (end_interview one_session ''nobody'') = Inl (HTTPException 404) \<and>
   (\<exists>s. one_session ''session-1'' = Some s \<and>
        get_interview_state one_session ''session-1'' =
          Inr (get_state (session_llm s), session_transcript s) \<and>
        snd (end_interview one_session ''session-1'') =
          Inr (''Interview ended'', session_transcript s, get_state (session_llm s))) \<and>
   get_interview_state (fst (end_interview one_session ''session-1'')) ''session-1'' =
     get_interview_state one_session ''session-1''"
proof -
  have n: "one_session ''nobody'' = None" by code_simp
  have "one_session ''session-1'' \<noteq> None" by code_simp
  then obtain s where k: "one_session ''session-1'' = Some s" by blast
  from registry_lookup_and_end [of one_session "''session-1''" "''session-1''"] k
  have "\<exists>s. one_session ''session-1'' = Some s \<and>
        get_interview_state one_session ''session-1'' =
          Inr (get_state (session_llm s), session_transcript s) \<and>
        snd (end_interview one_session ''session-1'') =
          Inr (''Interview ended'', session_transcript s, get_state (session_llm s))"
    by blast
  with registry_lookup_and_end [of one_session "''nobody''"]
       registry_lookup_and_end [of one_session "''session-1''" "''session-1''"] n
  show ?thesis by simp
qed

text \<open>
  C6 (as stated) fails for the start of a session: with the voice \<open>robot\<close>, which
  is not in the voice table, the server's start operation succeeds and the session
  speaks with the default voice.
\<close>

theorem start_with_unknown_voice_succeeds:
  "''robot'' \<notin> fst ` set AURA_VOICES \<and>
   snd (api_start_interview ascii_text (replies ''Hello Alex. Tell me about your background?'') speaker
          ''session-2'' (alex_request\<lparr>request_voice := ''robot''\<rparr>) Map.empty) =
     Inr \<lparr>response_session_id = ''session-2'',
          response_opening_message = ''Hello Alex. Tell me about your background?'',
          response_opening_audio = [0, 0, 0, 0],
          response_state =
            \<lparr>view_question_count = 0, view_main_questions_asked = 1,
             view_satisfaction_level = gathering_info, view_can_prompt_end = False,
             view_is_complete = False\<rparr>\<rparr> \<and>
   map_option session_tts
     (fst (api_start_interview ascii_text (replies ''Hello Alex. Tell me about your background?'') speaker
             ''session-2'' (alex_request\<lparr>request_voice := ''robot''\<rparr>) Map.empty)
        ''session-2'') = Some \<lparr>model = ''aura-asteria-en''\<rparr>"
proof -
  have "snd (api_start_interview ascii_text (replies ''Hello Alex. Tell me about your background?'') speaker
          ''session-2'' (alex_request\<lparr>request_voice := ''robot''\<rparr>) Map.empty) =
     Inr \<lparr>response_session_id = ''session-2'',
          response_opening_message = ''Hello Alex. Tell me about your background?'',
          response_opening_audio = [0, 0, 0, 0],
          response_state =
            \<lparr>view_question_count = 0, view_main_questions_asked = 1,
             view_satisfaction_level = gathering_info, view_can_prompt_end = False,
             view_is_complete = False\<rparr>\<rparr>"
    by code_simp
  moreover have "map_option session_tts
     (fst (api_start_interview ascii_text (replies ''Hello Alex. Tell me about your background?'') speaker
             ''session-2'' (alex_request\<lparr>request_voice := ''robot''\<rparr>) Map.empty)
        ''session-2'') = Some \<lparr>model = ''aura-asteria-en''\<rparr>"
    by code_simp
  ultimately show ?thesis using robot_unknown by simp
qed

text \<open>
  C6 (as amended). \<open>set_voice\<close> checks the selector against the voice table and
  fails for every unknown selector, without reaching the speech service; the
  interactive agent, which sets its voice this way, is not created. The constructor of
  the synthesizer does not check: an unknown selector gives the default voice, so the
  server's start operation with an unknown voice behaves as with the voice
  \<open>asteria\<close>. A known selector gives its entry of the table in both.
\<close>

theorem voice_selector_validation:
  "(voice \<notin> fst ` set AURA_VOICES \<longrightarrow>
      set_voice voice t = Inl ValueError \<and>
      new_InterviewAgent voice = Inl ValueError \<and>
      new_DeepgramTTS voice = \<lparr>model = ''aura-asteria-en''\<rparr> \<and>
      api_start_interview py client service session_id (request\<lparr>request_voice := voice\<rparr>) sessions
        = api_start_interview py client service session_id
            (request\<lparr>request_voice := ''asteria''\<rparr>) sessions) \<and>
   (\<forall>m. map_of AURA_VOICES voice = Some m \<longrightarrow>
      set_voice voice t = Inr (t\<lparr>model := m\<rparr>) \<and> new_DeepgramTTS voice = \<lparr>model = m\<rparr>)"
proof (intro conjI impI allI)
  assume u: "voice \<notin> fst ` set AURA_VOICES"
  then have none: "map_of AURA_VOICES voice = None" by (simp only: unknown_voice)
  show "set_voice voice t = Inl ValueError"
    by (simp add: set_voice_def none)
  show "new_InterviewAgent voice = Inl ValueError"
    by (simp add: new_InterviewAgent_def set_voice_def none)
  show d: "new_DeepgramTTS voice = \<lparr>model = ''aura-asteria-en''\<rparr>"
    by (simp add: new_DeepgramTTS_def none DEEPGRAM_TTS_MODEL_def)
  have "new_DeepgramTTS ''asteria'' = \<lparr>model = ''aura-asteria-en''\<rparr>"
    by (simp add: new_DeepgramTTS_def asteria_model)
  with d show "api_start_interview py client service session_id
                 (request\<lparr>request_voice := voice\<rparr>) sessions
        = api_start_interview py client service session_id
            (request\<lparr>request_voice := ''asteria''\<rparr>) sessions"
    by (simp add: api_start_interview_def Let_def split: prod.splits sum.splits)
next
  fix m assume "map_of AURA_VOICES voice = Some m"
  then show "set_voice voice t = Inr (t\<lparr>model := m\<rparr>)" "new_DeepgramTTS voice = \<lparr>model = m\<rparr>"
    by (simp_all add: set_voice_def new_DeepgramTTS_def)
qed

theorem voice_selector_validation_witness:
  "''robot'' \<notin> fst ` set AURA_VOICES \<and>
   set_voice ''robot'' (new_DeepgramTTS ''asteria'') = Inl ValueError \<and>
   new_InterviewAgent ''robot'' = Inl ValueError \<and>
   new_DeepgramTTS ''robot'' = \<lparr>model = ''aura-asteria-en''\<rparr> \<and>
   map_of AURA_VOICES ''asteria'' = Some ''aura-asteria-en'' \<and>
   set_voice ''asteria'' \<lparr>model = ''aura-luna-en''\<rparr> = Inr \<lparr>model = ''aura-asteria-en''\<rparr>"
  using voice_selector_validation [of "''robot''" "new_DeepgramTTS ''asteria''"]
        voice_selector_validation [of "''asteria''" "\<lparr>model = ''aura-luna-en''\<rparr>"]
        robot_unknown asteria_model
  by simp

section \<open>Properties of the interactive loop\<close>

lemma speak_agent:
  "fst (speak sv text a) = a\<lparr>transcript := transcript a @ [(''interviewer'', text)]\<rparr>"
  by (simp add: speak_def Let_def split: sum.splits)

lemma speak_result:
  "snd (speak sv line a) =
     (case synthesize (speak_service_of sv) (tts a) line of
        Inl e \<Rightarrow> Some e
      | Inr audio \<Rightarrow> play_bytes sv audio)"
  by (simp add: speak_def Let_def split: sum.splits)

lemma listen_empty: "listen py sv [] a = (a, Inr [])"
  by (simp add: listen_def)

lemma listen_heard:
  assumes "audio_bytes \<noteq> []" and "stt_service_of sv audio_bytes ''wav'' = Inr heard_text"
  shows "listen py sv audio_bytes a =
           (a\<lparr>transcript := transcript a @ [(''candidate'', strip py heard_text)]\<rparr>,
            Inr (strip py heard_text))"
  using assms by (simp add: listen_def transcribe_bytes_def)

lemma turn_empty_capture:
  "fst (turn py sv [] a) = a\<lparr>transcript := transcript a @ [(''interviewer'', repeat_line)]\<rparr>"
proof -
  obtain a2 err where s: "speak sv repeat_line a = (a2, err)"
    by (cases "speak sv repeat_line a")
  then have "a2 = fst (speak sv repeat_line a)" by simp
  then have "a2 = a\<lparr>transcript := transcript a @ [(''interviewer'', repeat_line)]\<rparr>"
    by (simp only: speak_agent)
  with s show ?thesis
    by (cases err) (simp_all add: turn_def listen_empty)
qed

lemma turn_completed_entries:
  assumes "audio_bytes \<noteq> []" and "turn py sv audio_bytes a = (a', fl)"
    and "fl = Continue \<or> fl = Break"
  shows "\<exists>text r. transcript a' = transcript a @ [(''candidate'', text), (''interviewer'', r)]"
proof (cases "transcribe_bytes py (stt_service_of sv) audio_bytes ''wav''")
  case (Inl e)
  with assms show ?thesis by (auto simp: turn_def listen_def)
next
  case (Inr said)
  let ?a1 = "a\<lparr>transcript := transcript a @ [(''candidate'', said)]\<rparr>"
  from Inr assms(1) have l: "listen py sv audio_bytes a = (?a1, Inr said)"
    by (simp add: listen_def)
  have sp: "\<And>line b. transcript b = transcript ?a1 \<Longrightarrow>
              transcript (fst (speak sv line b)) =
                transcript a @ [(''candidate'', said), (''interviewer'', line)]"
    by (simp add: speak_agent)
  show ?thesis
  proof (cases "said = []")
    case True
    with l assms(2) have "a' = fst (speak sv repeat_line ?a1)"
      by (auto simp: turn_def split: prod.splits option.splits)
    with sp [of ?a1 repeat_line] show ?thesis by auto
  next
    case nonempty: False
    show ?thesis
    proof (cases "any (\<lambda>word. contains word (lower py said)) exit_words")
      case True
      with l nonempty assms(2) have "a' = fst (speak sv concluding_line ?a1)"
        by (auto simp: turn_def split: prod.splits option.splits)
      with sp [of ?a1 concluding_line] show ?thesis by auto
    next
      case False
      obtain l' res where r: "respond py (chat_client_of sv) said (llm ?a1) = (l', res)"
        by (cases "respond py (chat_client_of sv) said (llm ?a1)")
      show ?thesis
      proof (cases res)
        case (Inl e)
        with l nonempty False r assms(2,3) show ?thesis
          by (auto simp: turn_def)
      next
        case (Inr out)
        with l nonempty False r assms(2) have "a' = fst (speak sv out (?a1\<lparr>llm := l'\<rparr>))"
          by (auto simp: turn_def split: prod.splits option.splits)
        with sp [of "?a1\<lparr>llm := l'\<rparr>" out] show ?thesis by auto
      qed
    qed
  qed
qed

lemma open_interview_entries:
  assumes "open_interview py sv candidate_name role a = (a', None)"
  shows "\<exists>opening. transcript a' = [(''interviewer'', opening)]"
proof -
  let ?a0 = "a\<lparr>running := True, transcript := []\<rparr>"
  obtain l res where s: "start_interview py (chat_client_of sv) candidate_name role (llm ?a0) = (l, res)"
    by (cases "start_interview py (chat_client_of sv) candidate_name role (llm ?a0)")
  show ?thesis
  proof (cases res)
    case (Inl e)
    with s assms show ?thesis by (simp add: open_interview_def Let_def)
  next
    case (Inr greeting)
    with s assms have "a' = fst (speak sv greeting (?a0\<lparr>llm := l\<rparr>))"
      by (simp add: open_interview_def Let_def)
    then show ?thesis by (simp add: speak_agent)
  qed
qed

text \<open>
  C5 (as stated) fails for an empty capture: the agent speaks the request to repeat,
  and speaking appends an interviewer entry. After the opening the transcript has one
  entry; after a pass with an empty capture it has two.
\<close>

theorem empty_capture_appends_an_entry:
  "transcript opened_agent = [(''interviewer'', ''Hello Alex. Tell me about your background?'')] \<and>
   transcript (fst (turn ascii_text (heard ''ignored'') [] opened_agent)) =
     [(''interviewer'', ''Hello Alex. Tell me about your background?''),
      (''interviewer'', ''I didn't catch that. Could you please repeat?'')] \<and>
   snd (turn ascii_text (heard ''ignored'') [] opened_agent) = Continue"
  by code_simp

text \<open>
  C5 (as amended). A pass of the interactive loop with an empty capture appends exactly
  one entry, the interviewer's request to repeat, and changes no other field of the
  agent. A pass with a capture that no service failure interrupts appends exactly two
  entries, the candidate's and then the interviewer's. The opening, when it completes,
  leaves a transcript of exactly one interviewer entry.
\<close>

theorem transcript_entries_per_turn:
  "fst (turn py sv [] a) = a\<lparr>transcript := transcript a @ [(''interviewer'', repeat_line)]\<rparr> \<and>
   (audio_bytes \<noteq> [] \<and> turn py sv audio_bytes a = (a', fl) \<and> (fl = Continue \<or> fl = Break) \<longrightarrow>
      (\<exists>text r. transcript a' = transcript a @ [(''candidate'', text), (''interviewer'', r)])) \<and>
   (open_interview py sv candidate_name role a = (a'', None) \<longrightarrow>
      (\<exists>opening. transcript a'' = [(''interviewer'', opening)]))"
  using turn_empty_capture turn_completed_entries open_interview_entries
  by blast

theorem transcript_entries_per_turn_witness:
  "([1, 2, 3] :: bytes) \<noteq> [] \<and>
   turn ascii_text (heard ''I built payment services.'') [1, 2, 3] opened_agent =
     (fst (turn ascii_text (heard ''I built payment services.'') [1, 2, 3] opened_agent), Continue) \<and>
   (\<exists>text r. transcript (fst (turn ascii_text (heard ''I built payment services.'') [1, 2, 3] opened_agent)) =
        transcript opened_agent @ [(''candidate'', text), (''interviewer'', r)]) \<and>
   fst (turn ascii_text (heard ''ignored'') [] opened_agent) =
     opened_agent\<lparr>transcript := transcript opened_agent @ [(''interviewer'', repeat_line)]\<rparr> \<and>
   snd (open_interview ascii_text
          ((heard [])\<lparr>chat_client_of := replies ''Hello Alex. Tell me about your background?''\<rparr>)
          ''Alex'' ''Backend Engineer''
          \<lparr>llm = new_GroqLLM, tts = new_DeepgramTTS ''asteria'', running = False,
           transcript = []\<rparr>) = None \<and>
   (\<exists>opening. transcript opened_agent = [(''interviewer'', opening)])"
proof -
  have n: "([1, 2, 3] :: bytes) \<noteq> []" by simp
  have "snd (turn ascii_text (heard ''I built payment services.'') [1, 2, 3] opened_agent) = Continue"
    by code_simp
  then have h: "turn ascii_text (heard ''I built payment services.'') [1, 2, 3] opened_agent =
     (fst (turn ascii_text (heard ''I built payment services.'') [1, 2, 3] opened_agent), Continue)"
    by (intro prod_eqI) simp_all
  have o: "snd (open_interview ascii_text
          ((heard [])\<lparr>chat_client_of := replies ''Hello Alex. Tell me about your background?''\<rparr>)
          ''Alex'' ''Backend Engineer''
          \<lparr>llm = new_GroqLLM, tts = new_DeepgramTTS ''asteria'', running = False,
           transcript = []\<rparr>) = None"
    by code_simp
  then have oi: "open_interview ascii_text
          ((heard [])\<lparr>chat_client_of := replies ''Hello Alex. Tell me about your background?''\<rparr>)
          ''Alex'' ''Backend Engineer''
          \<lparr>llm = new_GroqLLM, tts = new_DeepgramTTS ''asteria'', running = False,
           transcript = []\<rparr> = (opened_agent, None)"
    unfolding opened_agent_def by (intro prod_eqI) simp_all
  from transcript_entries_per_turn
         [where sv = "heard ''I built payment services.''" and audio_bytes = "[1, 2, 3]"
            and a = opened_agent and fl = Continue
            and a' = "fst (turn ascii_text (heard ''I built payment services.'') [1, 2, 3] opened_agent)"]
       n h
  have two: "\<exists>text r. transcript (fst (turn ascii_text (heard ''I built payment services.'') [1, 2, 3]
                 opened_agent)) =
        transcript opened_agent @ [(''candidate'', text), (''interviewer'', r)]"
    by simp
  from transcript_entries_per_turn [where a'' = opened_agent, OF] oi
  have one: "\<exists>opening. transcript opened_agent = [(''interviewer'', opening)]"
    by blast
  from transcript_entries_per_turn [where sv = "heard ''ignored''" and a = opened_agent]
  have zero: "fst (turn ascii_text (heard ''ignored'') [] opened_agent) =
     opened_agent\<lparr>transcript := transcript opened_agent @ [(''interviewer'', repeat_line)]\<rparr>"
    by simp
  from n h two zero o one show ?thesis by blast
qed

lemma exit_check_iff:
  "any (\<lambda>word. contains word (lower py response)) exit_words \<longleftrightarrow>
     (\<exists>w\<in>set exit_words. \<exists>pre suf. lower py response = pre @ w @ suf)"
  by (simp only: any_iff contains_iff)

text \<open>
  C10. The exit check of the interactive loop is substring containment of one of the
  four exit words in the lower-case transcription. Whenever a non-empty transcription
  has an exit word anywhere inside it, also inside a longer word, the pass appends the
  candidate's entry and the concluding line, synthesizes and plays that line, leaves
  the state machine as it was, and ends the loop: by a break when the line has been
  played, by the failure when the synthesis or the playback fails. When no exit word
  occurs in it, the state machine is advanced. The
  witness is the utterance \<open>It was quite good.\<close>, where \<open>quit\<close> occurs inside
  \<open>quite\<close>.
\<close>

theorem exit_word_as_substring_ends_interview:
  assumes "audio_bytes \<noteq> []"
    and "stt_service_of sv audio_bytes ''wav'' = Inr heard_text"
    and "response = strip py heard_text"
    and "response \<noteq> []"
  shows "((\<exists>w\<in>set exit_words. \<exists>pre suf. lower py response = pre @ w @ suf) \<longrightarrow>
            fst (turn py sv audio_bytes a) =
              a\<lparr>transcript := transcript a @
                   [(''candidate'', response), (''interviewer'', concluding_line)]\<rparr> \<and>
            llm (fst (turn py sv audio_bytes a)) = llm a \<and>
            snd (turn py sv audio_bytes a) \<noteq> Continue \<and>
            snd (turn py sv audio_bytes a) =
              (case synthesize (speak_service_of sv) (tts a) concluding_line of
                 Inl e \<Rightarrow> Raise e
               | Inr audio \<Rightarrow>
                   (case play_bytes sv audio of None \<Rightarrow> Break | Some e \<Rightarrow> Raise e)) \<and>
            (running a \<and> \<not> is_interview_complete (llm a) \<longrightarrow>
               fst (interview_loop py ((sv, audio_bytes) # rest) a) = fst (turn py sv audio_bytes a))) \<and>
         (\<not> (\<exists>w\<in>set exit_words. \<exists>pre suf. lower py response = pre @ w @ suf) \<longrightarrow>
            llm (fst (turn py sv audio_bytes a)) =
              fst (respond py (chat_client_of sv) response (llm a)))"
proof (intro conjI impI)
  let ?a1 = "a\<lparr>transcript := transcript a @ [(''candidate'', response)]\<rparr>"
  let ?a2 = "a\<lparr>transcript := transcript a @
                   [(''candidate'', response), (''interviewer'', concluding_line)]\<rparr>"
  have l: "listen py sv audio_bytes a = (?a1, Inr response)"
    using listen_heard [OF assms(1,2)] assms(3) by simp
  assume "\<exists>w\<in>set exit_words. \<exists>pre suf. lower py response = pre @ w @ suf"
  then have ex: "any (\<lambda>word. contains word (lower py response)) exit_words"
    by (simp only: exit_check_iff)
  obtain b err where s: "speak sv concluding_line ?a1 = (b, err)"
    by (cases "speak sv concluding_line ?a1")
  then have "b = fst (speak sv concluding_line ?a1)" by simp
  then have b: "b = ?a2" by (simp add: speak_agent)
  have t: "turn py sv audio_bytes a = (?a2, case err of None \<Rightarrow> Break | Some e \<Rightarrow> Raise e)"
    using l ex s b assms(4) by (cases err) (simp_all add: turn_def)
  show f: "fst (turn py sv audio_bytes a) = ?a2" by (simp add: t)
  show "llm (fst (turn py sv audio_bytes a)) = llm a" by (simp add: t)
  show "snd (turn py sv audio_bytes a) \<noteq> Continue" by (cases err) (simp_all add: t)
  from s have "err = snd (speak sv concluding_line ?a1)" by simp
  then have "err = (case synthesize (speak_service_of sv) (tts a) concluding_line of
                      Inl e \<Rightarrow> Some e
                    | Inr audio \<Rightarrow> play_bytes sv audio)"
    by (simp add: speak_result)
  then show "snd (turn py sv audio_bytes a) =
              (case synthesize (speak_service_of sv) (tts a) concluding_line of
                 Inl e \<Rightarrow> Raise e
               | Inr audio \<Rightarrow>
                   (case play_bytes sv audio of None \<Rightarrow> Break | Some e \<Rightarrow> Raise e))"
    by (simp add: t split: sum.splits option.splits)
  assume "running a \<and> \<not> is_interview_complete (llm a)"
  then show "fst (interview_loop py ((sv, audio_bytes) # rest) a) = fst (turn py sv audio_bytes a)"
    by (cases err) (simp_all add: t)
next
  let ?a1 = "a\<lparr>transcript := transcript a @ [(''candidate'', response)]\<rparr>"
  have l: "listen py sv audio_bytes a = (?a1, Inr response)"
    using listen_heard [OF assms(1,2)] assms(3) by simp
  assume "\<not> (\<exists>w\<in>set exit_words. \<exists>pre suf. lower py response = pre @ w @ suf)"
  then have ex: "\<not> any (\<lambda>word. contains word (lower py response)) exit_words"
    by (simp add: exit_check_iff)
  obtain l' res where r: "respond py (chat_client_of sv) response (llm a) = (l', res)"
    by (cases "respond py (chat_client_of sv) response (llm a)")
  show "llm (fst (turn py sv audio_bytes a)) = fst (respond py (chat_client_of sv) response (llm a))"
  proof (cases res)
    case (Inl e)
    with l ex r assms(4) show ?thesis by (simp add: turn_def)
  next
    case (Inr out)
    obtain b err where s: "speak sv out (?a1\<lparr>llm := l'\<rparr>) = (b, err)"
      by (cases "speak sv out (?a1\<lparr>llm := l'\<rparr>)")
    then have "b = fst (speak sv out (?a1\<lparr>llm := l'\<rparr>))" by simp
    then have "llm b = l'" by (simp add: speak_agent)
    with Inr l ex r s assms(4) show ?thesis
      by (cases err) (simp_all add: turn_def)
  qed
qed

theorem exit_word_as_substring_ends_interview_witness:
  "([1, 2, 3] :: bytes) \<noteq> [] \<and>
   stt_service_of (heard ''It was quite good.'') [1, 2, 3] ''wav'' = Inr ''It was quite good.'' \<and>
   ''It was quite good.'' = strip ascii_text ''It was quite good.'' \<and>
   ''quit'' \<in> set exit_words \<and>
   lower ascii_text ''It was quite good.'' = ''it was '' @ ''quit'' @ ''e good.'' \<and>
   synthesize (speak_service_of (heard ''It was quite good.'')) (tts opened_agent) concluding_line
     = Inr [0, 0, 0, 0] \<and>
   play_bytes (heard ''It was quite good.'') [0, 0, 0, 0] = None \<and>
   turn ascii_text (heard ''It was quite good.'') [1, 2, 3] opened_agent =
     (opened_agent\<lparr>transcript := transcript opened_agent @
        [(''candidate'', ''It was quite good.''), (''interviewer'', concluding_line)]\<rparr>, Break) \<and>
   llm (fst (turn ascii_text (heard ''It was quite good.'') [1, 2, 3] opened_agent))
     = llm opened_agent \<and>
   running opened_agent \<and> \<not> is_interview_complete (llm opened_agent) \<and>
   fst (interview_loop ascii_text
          [(heard ''It was quite good.'', [1, 2, 3]), (heard ''I built payment services.'', [4, 5])]
          opened_agent) =
     fst (turn ascii_text (heard ''It was quite good.'') [1, 2, 3] opened_agent) \<and>
   \<not> any (\<lambda>word. contains word (lower ascii_text ''I built payment services.'')) exit_words \<and>
   llm (fst (turn ascii_text (heard ''I built payment services.'') [1, 2, 3] opened_agent)) =
     fst (respond ascii_text (chat_client_of (heard ''I built payment services.''))
            ''I built payment services.'' (llm opened_agent))"
proof -
  have n: "([1, 2, 3] :: bytes) \<noteq> []" by simp
  have s: "stt_service_of (heard ''It was quite good.'') [1, 2, 3] ''wav''
             = Inr ''It was quite good.''"
    by (simp add: heard_def)
  have st: "''It was quite good.'' = strip ascii_text ''It was quite good.''" by code_simp
  have ne: "''It was quite good.'' \<noteq> []" by simp
  have w: "''quit'' \<in> set exit_words" by (simp add: exit_words_def)
  have lo: "lower ascii_text ''It was quite good.'' = ''it was '' @ ''quit'' @ ''e good.''"
    by code_simp
  from w lo
  have ex: "\<exists>w\<in>set exit_words. \<exists>pre suf. lower ascii_text ''It was quite good.'' = pre @ w @ suf"
    by blast
  have sy: "synthesize (speak_service_of (heard ''It was quite good.'')) (tts opened_agent)
              concluding_line = Inr [0, 0, 0, 0]"
    by (simp add: synthesize_def heard_def speaker_def)
  have pl: "play_bytes (heard ''It was quite good.'') [0, 0, 0, 0] = None"
    by (simp add: heard_def player_def)
  have ru: "running opened_agent \<and> \<not> is_interview_complete (llm opened_agent)"
    by code_simp
  note th = exit_word_as_substring_ends_interview
              [where py = ascii_text and a = opened_agent
                 and rest = "[(heard ''I built payment services.'', [4, 5])]", OF n s st ne]
  from th ex ru
  have f: "fst (turn ascii_text (heard ''It was quite good.'') [1, 2, 3] opened_agent) =
          opened_agent\<lparr>transcript := transcript opened_agent @
            [(''candidate'', ''It was quite good.''), (''interviewer'', concluding_line)]\<rparr>"
    and l: "llm (fst (turn ascii_text (heard ''It was quite good.'') [1, 2, 3] opened_agent))
              = llm opened_agent"
    and sp: "snd (turn ascii_text (heard ''It was quite good.'') [1, 2, 3] opened_agent) =
              (case synthesize (speak_service_of (heard ''It was quite good.'')) (tts opened_agent)
                      concluding_line of
                 Inl e \<Rightarrow> Raise e
               | Inr audio \<Rightarrow>
                   (case play_bytes (heard ''It was quite good.'') audio of
                      None \<Rightarrow> Break | Some e \<Rightarrow> Raise e))"
    and lp: "fst (interview_loop ascii_text
          [(heard ''It was quite good.'', [1, 2, 3]), (heard ''I built payment services.'', [4, 5])]
          opened_agent) =
        fst (turn ascii_text (heard ''It was quite good.'') [1, 2, 3] opened_agent)"
    by blast+
  from sp have br: "snd (turn ascii_text (heard ''It was quite good.'') [1, 2, 3] opened_agent) = Break"
    by (simp add: sy pl)
  from f br have t: "turn ascii_text (heard ''It was quite good.'') [1, 2, 3] opened_agent =
     (opened_agent\<lparr>transcript := transcript opened_agent @
        [(''candidate'', ''It was quite good.''), (''interviewer'', concluding_line)]\<rparr>, Break)"
    by (simp add: prod_eq_iff)
  have s2: "stt_service_of (heard ''I built payment services.'') [1, 2, 3] ''wav''
             = Inr ''I built payment services.''"
    by (simp add: heard_def)
  have st2: "''I built payment services.'' = strip ascii_text ''I built payment services.''"
    by code_simp
  have ne2: "''I built payment services.'' \<noteq> []" by simp
  have no: "\<not> any (\<lambda>word. contains word (lower ascii_text ''I built payment services.''))
                 exit_words"
    by code_simp
  then have nex: "\<not> (\<exists>w\<in>set exit_words. \<exists>pre suf.
                     lower ascii_text ''I built payment services.'' = pre @ w @ suf)"
    by (simp add: exit_check_iff)
  from exit_word_as_substring_ends_interview
         [where py = ascii_text and a = opened_agent, OF n s2 st2 ne2] nex
  have adv: "llm (fst (turn ascii_text (heard ''I built payment services.'') [1, 2, 3]
                         opened_agent)) =
     fst (respond ascii_text (chat_client_of (heard ''I built payment services.''))
            ''I built payment services.'' (llm opened_agent))"
    by blast
  from n s st w lo sy pl t l ru lp no adv show ?thesis by blast
qed

end
